theory Spec2Isabelle
  imports Complex_Main "HOL-Library.AList"
begin

section \<open>Python values, failures and containers\<close>

text \<open>
  The script \<^verbatim>\<open>server/analysis/analyze_duke_1362.py\<close> is a pipeline of aggregation
  functions over parsed JSON. Python integers are \<^typ>\<open>int\<close>, the results of true
  division and of the \<^verbatim>\<open>statistics\<close> module are modelled as exact \<^typ>\<open>real\<close> numbers,
  dictionaries are association lists in insertion order, and every exception the code
  can raise is a value of \<open>py_error\<close> on the left of a sum.
\<close>

datatype py_error = KeyError | IndexError | ZeroDivisionError | StatisticsError | ValueError

type_synonym 'a result = "py_error + 'a"

definition bindE :: "'a result \<Rightarrow> ('a \<Rightarrow> 'b result) \<Rightarrow> 'b result" where
  "bindE r f = (case r of Inl e \<Rightarrow> Inl e | Inr a \<Rightarrow> f a)"

text \<open>A comprehension whose element expression may raise: the first failure wins.\<close>

fun mapE :: "('a \<Rightarrow> 'b result) \<Rightarrow> 'a list \<Rightarrow> 'b list result" where
  "mapE f [] = Inr []"
| "mapE f (x # xs) = bindE (f x) (\<lambda>y. bindE (mapE f xs) (\<lambda>ys. Inr (y # ys)))"

text \<open>\<^verbatim>\<open>a / b\<close> on numbers.\<close>

definition py_div :: "real \<Rightarrow> real \<Rightarrow> real result" where
  "py_div a b = (if b = 0 then Inl ZeroDivisionError else Inr (a / b))"

text \<open>\<^verbatim>\<open>xs[i]\<close> for a non-negative literal index, and \<^verbatim>\<open>d['key']\<close> for a key that may be absent.\<close>

definition get_item :: "'a list \<Rightarrow> nat \<Rightarrow> 'a result" where
  "get_item xs i = (if i < length xs then Inr (xs ! i) else Inl IndexError)"

definition get_key :: "'a option \<Rightarrow> 'a result" where
  "get_key v = (case v of None \<Rightarrow> Inl KeyError | Some a \<Rightarrow> Inr a)"

text \<open>
  \<^verbatim>\<open>d[k] = f(d[k])\<close> on a \<^verbatim>\<open>defaultdict\<close> whose factory returns \<open>dflt\<close>: an existing key
  is updated in place, a new key is appended.
\<close>

definition dd_modify :: "'k \<Rightarrow> 'v \<Rightarrow> ('v \<Rightarrow> 'v) \<Rightarrow> ('k \<times> 'v) list \<Rightarrow> ('k \<times> 'v) list" where
  "dd_modify k dflt f al =
     AList.update k (f (case map_of al k of None \<Rightarrow> dflt | Some v \<Rightarrow> v)) al"

subsection \<open>The functions of the \<^verbatim>\<open>statistics\<close> module and the builtins used\<close>

definition mean :: "int list \<Rightarrow> real result" where
  "mean xs = (if xs = [] then Inl StatisticsError
              else Inr (real_of_int (sum_list xs) / real (length xs)))"

definition median :: "int list \<Rightarrow> real result" where
  "median xs =
     (let d = sort xs; n = length d in
      if n = 0 then Inl StatisticsError
      else if n mod 2 = 1 then Inr (real_of_int (d ! (n div 2)))
      else Inr (real_of_int (d ! (n div 2 - 1) + d ! (n div 2)) / 2))"

definition stdev :: "int list \<Rightarrow> real result" where
  "stdev xs =
     (if length xs < 2 then Inl StatisticsError
      else (let m = real_of_int (sum_list xs) / real (length xs) in
            Inr (sqrt (sum_list (map (\<lambda>x. (real_of_int x - m)\<^sup>2) xs) / real (length xs - 1)))))"

definition py_max :: "int list \<Rightarrow> int result" where
  "py_max xs = (case xs of [] \<Rightarrow> Inl ValueError | x # rest \<Rightarrow> Inr (fold max rest x))"

definition py_min :: "int list \<Rightarrow> int result" where
  "py_min xs = (case xs of [] \<Rightarrow> Inl ValueError | x # rest \<Rightarrow> Inr (fold min rest x))"

section \<open>Input data\<close>

text \<open>
  A player object of \<^verbatim>\<open>data.players\<close>; every key may be absent. A drafted player is an
  object that passed the extractor's filter, so its \<^verbatim>\<open>winningBid\<close> is present.
\<close>

record player_fields =
  fullName :: "string option"
  positions :: "string list option"
  winningTeam :: "string option"
  mlbTeam :: "string option"

record raw_player = player_fields +
  status :: "string option"
  winningBid_field :: "int option"

record player = player_fields +
  winningBid :: int

text \<open>The auction snapshot: \<^verbatim>\<open>metadata.fetchedAt\<close> and \<^verbatim>\<open>data.players\<close>.\<close>

record auction_data =
  fetchedAt :: string
  players :: "raw_player list"

text \<open>The \<^verbatim>\<open>aggregate\<close> object of the historical inflation reference.\<close>

record inflation_entry =
  avgInflationRate :: "real option"

record historical =
  avgOverallInflationRate :: real
  stdDevInflationRate :: real
  minInflationRate :: real
  maxInflationRate :: real
  aggregateTierInflation :: "inflation_entry list"
  aggregatePriceRangeInflation :: "inflation_entry list"
  aggregatePositionInflation :: "inflation_entry list"

section \<open>Extractor\<close>

definition drafted :: "raw_player \<Rightarrow> player option" where
  "drafted r =
     (if status r = Some ''drafted'' then
        (case winningBid_field r of
           None \<Rightarrow> None
         | Some b \<Rightarrow> Some \<lparr>fullName = fullName r, positions = positions r,
                           winningTeam = winningTeam r, mlbTeam = mlbTeam r, winningBid = b\<rparr>)
      else None)"

definition extract_players :: "auction_data \<Rightarrow> player list \<times> player list" where
  "extract_players auction =
     (let all_players = List.map_filter drafted (players auction);
          duke_players = filter (\<lambda>p. winningTeam p = Some ''Duke'') all_players
      in (all_players, duke_players))"

section \<open>Team aggregator\<close>

record team_bucket =
  tb_players :: "player list"
  tb_total :: int

definition team_key :: "player \<Rightarrow> string" where
  "team_key p = (case winningTeam p of None \<Rightarrow> ''Unknown'' | Some t \<Rightarrow> t)"

definition add_to_team :: "player \<Rightarrow> team_bucket \<Rightarrow> team_bucket" where
  "add_to_team p b = \<lparr>tb_players = tb_players b @ [p], tb_total = tb_total b + winningBid p\<rparr>"

text \<open>The body of the loop over \<^verbatim>\<open>all_players\<close>, and the loop.\<close>

definition team_step :: "player \<Rightarrow> (string \<times> team_bucket) list \<Rightarrow> (string \<times> team_bucket) list" where
  "team_step p teams =
     dd_modify (team_key p) \<lparr>tb_players = [], tb_total = 0\<rparr> (add_to_team p) teams"

definition analyze_teams :: "player list \<Rightarrow> (string \<times> team_bucket) list" where
  "analyze_teams all_players = fold team_step all_players []"

section \<open>Position aggregator\<close>

record position_acc =
  bids :: "int list"
  acc_count :: nat

record position_stat =
  ps_count :: nat
  ps_totalSpent :: int
  ps_avgBid :: real
  ps_medianBid :: real
  ps_maxBid :: int
  ps_minBid :: int
  ps_stdDev :: real

definition get_positions :: "player \<Rightarrow> string list" where
  "get_positions p = (case positions p of None \<Rightarrow> [] | Some xs \<Rightarrow> xs)"

definition add_bid :: "int \<Rightarrow> position_acc \<Rightarrow> position_acc" where
  "add_bid b a = \<lparr>bids = bids a @ [b], acc_count = acc_count a + 1\<rparr>"

text \<open>The inner loop over a player's positions, and the outer loop over the players.\<close>

definition position_step :: "int \<Rightarrow> string \<Rightarrow> (string \<times> position_acc) list \<Rightarrow> (string \<times> position_acc) list" where
  "position_step b pos position_stats =
     dd_modify pos \<lparr>bids = [], acc_count = 0\<rparr> (add_bid b) position_stats"

definition player_step :: "player \<Rightarrow> (string \<times> position_acc) list \<Rightarrow> (string \<times> position_acc) list" where
  "player_step p position_stats =
     fold (position_step (winningBid p)) (get_positions p) position_stats"

definition collect_positions :: "player list \<Rightarrow> (string \<times> position_acc) list" where
  "collect_positions ps = fold player_step ps []"

definition position_row :: "position_acc \<Rightarrow> position_stat result" where
  "position_row st =
     bindE (mean (bids st)) (\<lambda>avg.
     bindE (median (bids st)) (\<lambda>med.
     bindE (py_max (bids st)) (\<lambda>mx.
     bindE (py_min (bids st)) (\<lambda>mn.
     bindE (if length (bids st) > 1 then stdev (bids st) else Inr 0) (\<lambda>sd.
       Inr \<lparr>ps_count = acc_count st, ps_totalSpent = sum_list (bids st), ps_avgBid = avg,
            ps_medianBid = med, ps_maxBid = mx, ps_minBid = mn, ps_stdDev = sd\<rparr>)))))"

definition analyze_positions :: "player list \<Rightarrow> (string \<times> position_stat) list result" where
  "analyze_positions ps =
     mapE (\<lambda>(pos, st). bindE (position_row st) (\<lambda>row. Inr (pos, row))) (collect_positions ps)"

section \<open>Price-tier aggregator\<close>

record tier_stat =
  minPrice :: int
  maxPrice :: "int option"
  t_count :: nat
  t_totalSpent :: int
  percentOfTotal :: real
  t_avgBid :: real

definition tiers :: "(int \<times> int \<times> string) list" where
  "tiers = [(1, 5, ''Filler ($1-$5)''),
            (6, 10, ''Value ($6-$10)''),
            (11, 15, ''Mid-tier ($11-$15)''),
            (16, 20, ''Quality ($16-$20)''),
            (21, 30, ''Star ($21-$30)''),
            (31, 999, ''Elite ($31+)'')]"

definition in_tier :: "int \<Rightarrow> int \<Rightarrow> player \<Rightarrow> bool" where
  "in_tier min_p max_p p = (min_p \<le> winningBid p \<and> winningBid p \<le> max_p)"

definition tier_row :: "player list \<Rightarrow> int \<Rightarrow> int \<Rightarrow> int \<Rightarrow> tier_stat result" where
  "tier_row ps total_spent min_p max_p =
     (let members = filter (in_tier min_p max_p) ps in
      bindE (if total_spent > 0
             then bindE (py_div (real_of_int (sum_list (map winningBid members)))
                                (real_of_int total_spent)) (\<lambda>q. Inr (q * 100))
             else Inr 0) (\<lambda>pct.
      bindE (if list_ex (in_tier min_p max_p) ps then mean (map winningBid members)
             else Inr 0) (\<lambda>avg.
        Inr \<lparr>minPrice = min_p, maxPrice = (if max_p < 999 then Some max_p else None),
             t_count = length members, t_totalSpent = sum_list (map winningBid members),
             percentOfTotal = pct, t_avgBid = avg\<rparr>)))"

definition analyze_price_tiers :: "player list \<Rightarrow> (string \<times> tier_stat) list result" where
  "analyze_price_tiers ps =
     (let total_spent = sum_list (map winningBid ps) in
      mapE (\<lambda>(min_p, max_p, label).
              bindE (tier_row ps total_spent min_p max_p) (\<lambda>row. Inr (label, row)))
        (filter (\<lambda>(min_p, max_p, label). list_ex (in_tier min_p max_p) ps) tiers))"

subsection \<open>The float operations of the price-tier aggregator, with their rounding\<close>

text \<open>
  Line 80 is evaluated in binary64: the true division of the two integers and the
  multiplication by 100 are each rounded, and \<^verbatim>\<open>statistics.mean\<close> rounds its exact
  quotient. The definitions below repeat \<open>tier_row\<close> and \<open>analyze_price_tiers\<close> with the
  rounding function \<open>rnd\<close> of the arithmetic applied after each float operation.
  \<open>float_ok u rnd\<close> is the standard model of rounding: every result lies within relative
  error \<open>u\<close> of the exact one (\<open>u\<close> is 2 to the power -53 for round-to-nearest binary64,
  away from overflow and underflow). With the identity for \<open>rnd\<close> they are the exact
  functions above. \<open>py_sum\<close> is the built-in \<^verbatim>\<open>sum\<close>, which adds from left to right
  starting at 0 and rounds every addition.
\<close>

definition float_ok :: "real \<Rightarrow> (real \<Rightarrow> real) \<Rightarrow> bool" where
  "float_ok u rnd \<longleftrightarrow> 0 \<le> u \<and> u < 1 \<and> (\<forall>x. \<bar>rnd x - x\<bar> \<le> u * \<bar>x\<bar>)"

definition float_div :: "(real \<Rightarrow> real) \<Rightarrow> real \<Rightarrow> real \<Rightarrow> real result" where
  "float_div rnd a b = (if b = 0 then Inl ZeroDivisionError else Inr (rnd (a / b)))"

definition float_mean :: "(real \<Rightarrow> real) \<Rightarrow> int list \<Rightarrow> real result" where
  "float_mean rnd xs = (if xs = [] then Inl StatisticsError
                        else Inr (rnd (real_of_int (sum_list xs) / real (length xs))))"

definition tier_row_float ::
  "(real \<Rightarrow> real) \<Rightarrow> player list \<Rightarrow> int \<Rightarrow> int \<Rightarrow> int \<Rightarrow> tier_stat result" where
  "tier_row_float rnd ps total_spent min_p max_p =
     (let members = filter (in_tier min_p max_p) ps in
      bindE (if total_spent > 0
             then bindE (float_div rnd (real_of_int (sum_list (map winningBid members)))
                                       (real_of_int total_spent)) (\<lambda>q. Inr (rnd (q * 100)))
             else Inr 0) (\<lambda>pct.
      bindE (if list_ex (in_tier min_p max_p) ps then float_mean rnd (map winningBid members)
             else Inr 0) (\<lambda>avg.
        Inr \<lparr>minPrice = min_p, maxPrice = (if max_p < 999 then Some max_p else None),
             t_count = length members, t_totalSpent = sum_list (map winningBid members),
             percentOfTotal = pct, t_avgBid = avg\<rparr>)))"

definition analyze_price_tiers_float ::
  "(real \<Rightarrow> real) \<Rightarrow> player list \<Rightarrow> (string \<times> tier_stat) list result" where
  "analyze_price_tiers_float rnd ps =
     (let total_spent = sum_list (map winningBid ps) in
      mapE (\<lambda>(min_p, max_p, label).
              bindE (tier_row_float rnd ps total_spent min_p max_p) (\<lambda>row. Inr (label, row)))
        (filter (\<lambda>(min_p, max_p, label). list_ex (in_tier min_p max_p) ps) tiers))"

definition py_sum :: "(real \<Rightarrow> real) \<Rightarrow> real list \<Rightarrow> real" where
  "py_sum rnd xs = fold (\<lambda>x acc. rnd (acc + x)) xs 0"

section \<open>Target-team position breakdown\<close>

record breakdown_entry =
  be_name :: string
  be_bid :: int

record breakdown_stat =
  bd_count :: nat
  bd_totalSpent :: int
  bd_avgBid :: real
  bd_players :: "breakdown_entry list"

definition group_step :: "player \<Rightarrow> (string \<times> player list) list \<Rightarrow> (string \<times> player list) list" where
  "group_step p duke_positions =
     fold (\<lambda>pos acc. dd_modify pos [] (\<lambda>l. l @ [p]) acc) (get_positions p) duke_positions"

definition group_by_position :: "player list \<Rightarrow> (string \<times> player list) list" where
  "group_by_position duke_players = fold group_step duke_players []"

definition breakdown_row :: "player list \<Rightarrow> breakdown_stat result" where
  "breakdown_row ps =
     bindE (mean (map winningBid ps)) (\<lambda>avg.
     bindE (mapE (\<lambda>p. bindE (get_key (fullName p))
                         (\<lambda>n. Inr \<lparr>be_name = n, be_bid = winningBid p\<rparr>)) ps) (\<lambda>entries.
       Inr \<lparr>bd_count = length ps, bd_totalSpent = sum_list (map winningBid ps),
            bd_avgBid = avg, bd_players = entries\<rparr>))"

definition duke_position_breakdown :: "player list \<Rightarrow> (string \<times> breakdown_stat) list result" where
  "duke_position_breakdown duke_players =
     mapE (\<lambda>(pos, ps). bindE (breakdown_row ps) (\<lambda>row. Inr (pos, row)))
       (group_by_position duke_players)"

section \<open>Comparator\<close>

record comparison_row =
  dukeAvg :: real
  leagueAvg :: real
  difference :: real
  percentDiff :: real
  cmp_interpretation :: string

definition compare_row :: "real \<Rightarrow> real \<Rightarrow> comparison_row result" where
  "compare_row duke_avg league_avg =
     bindE (if league_avg > 0
            then bindE (py_div (duke_avg - league_avg) league_avg) (\<lambda>q. Inr (q * 100))
            else Inr 0) (\<lambda>pd.
       Inr \<lparr>dukeAvg = duke_avg, leagueAvg = league_avg, difference = duke_avg - league_avg,
            percentDiff = pd,
            cmp_interpretation = (if duke_avg > league_avg then ''overpaid'' else ''value'')\<rparr>)"

text \<open>The loop over \<^verbatim>\<open>duke_pos_breakdown.items()\<close>, with the dictionary being filled.\<close>

fun compare_loop ::
  "(string \<times> position_stat) list \<Rightarrow> (string \<times> breakdown_stat) list \<Rightarrow>
   (string \<times> comparison_row) list \<Rightarrow> (string \<times> comparison_row) list result" where
  "compare_loop league [] comparison = Inr comparison"
| "compare_loop league ((pos, duke_data) # rest) comparison =
     (case map_of league pos of
        None \<Rightarrow> compare_loop league rest comparison
      | Some l \<Rightarrow>
          bindE (compare_row (bd_avgBid duke_data) (ps_avgBid l)) (\<lambda>row.
            compare_loop league rest (AList.update pos row comparison)))"

definition compare_duke_to_league ::
  "player list \<Rightarrow> player list \<Rightarrow> (string \<times> comparison_row) list result" where
  "compare_duke_to_league duke_players all_players =
     bindE (analyze_positions all_players) (\<lambda>league_pos_stats.
     bindE (duke_position_breakdown duke_players) (\<lambda>duke_pos_breakdown.
       compare_loop league_pos_stats duke_pos_breakdown []))"

section \<open>Insight generator\<close>

text \<open>
  A finding is an f-string; the model keeps the figures that are formatted into the text,
  in the order of the template, instead of the rendered characters.
\<close>

datatype finding =
    BudgetStatusText int int real int
  | RosterSizeText nat real
  | AveragePlayerValueText real real
  | HistoricalEliteText real
  | HistoricalBudgetText real

record insight =
  category :: string
  finding :: finding
  implication :: string

text \<open>\<^verbatim>\<open>xs[i]['avgInflationRate']\<close>\<close>

definition inflation_at :: "inflation_entry list \<Rightarrow> nat \<Rightarrow> real result" where
  "inflation_at xs i = bindE (get_item xs i) (\<lambda>e. get_key (avgInflationRate e))"

definition generate_insights ::
  "player list \<Rightarrow> player list \<Rightarrow> (string \<times> team_bucket) list \<Rightarrow> historical \<Rightarrow> insight list result" where
  "generate_insights duke_players all_players teams hist =
     (let duke_total = sum_list (map winningBid duke_players);
          total_spent = sum_list (map winningBid all_players);
          num_teams = length teams;
          expected_budget = 260;
          remaining_budget = expected_budget - duke_total
      in
      bindE (py_div (real_of_int duke_total) (real_of_int expected_budget)) (\<lambda>q.
      let budget_pct = q * 100;
          i1 = \<lparr>category = ''Budget Status'',
                finding = BudgetStatusText duke_total expected_budget budget_pct remaining_budget,
                implication = (if budget_pct < 80 then ''Moderate''
                               else if budget_pct < 90 then ''Low'' else ''Very Low'')\<rparr>
      in
      bindE (py_div (real (length all_players)) (real num_teams)) (\<lambda>avg_roster.
      let i2 = \<lparr>category = ''Roster Size'',
                finding = RosterSizeText (length duke_players) avg_roster,
                implication = (if real (length duke_players) < avg_roster
                               then ''Below average'' else ''Above average'')\<rparr>
      in
      bindE (py_div (real_of_int duke_total) (real (length duke_players))) (\<lambda>duke_avg.
      bindE (py_div (real_of_int total_spent) (real (length all_players))) (\<lambda>league_avg.
      let i3 = \<lparr>category = ''Average Player Value'',
                finding = AveragePlayerValueText duke_avg league_avg,
                implication = (if duke_avg > league_avg
                               then ''Targeting premium players'' else ''Value-focused strategy'')\<rparr>
      in
      bindE (inflation_at (aggregateTierInflation hist) 0) (\<lambda>hist_tier1_infl.
      bindE (inflation_at (aggregatePriceRangeInflation hist) 3) (\<lambda>hist_elite_infl.
      let i4 = \<lparr>category = ''Historical Context - Elite Players'',
                finding = HistoricalEliteText hist_tier1_infl,
                implication = ''Elite players are historically the best value in auctions''\<rparr>
      in
      bindE (inflation_at (aggregatePriceRangeInflation hist) 0) (\<lambda>budget_infl.
      let i5 = \<lparr>category = ''Historical Context - Budget Players'',
                finding = HistoricalBudgetText budget_infl,
                implication = ''Budget players are consistently overvalued - avoid overpaying for replacement level''\<rparr>
      in Inr [i1, i2, i3, i4, i5]))))))))"

section \<open>Report assembler\<close>

record report_metadata =
  roomId :: string
  leagueName :: string
  leagueType :: string
  projectionSystem :: string
  analysisDate :: string

record league_overview =
  totalTeams :: nat
  totalPlayersDrafted :: nat
  totalMoneySpent :: int
  averageSpendPerTeam :: real
  expectedBudgetPerTeam :: int
  averageRosterSize :: real
  lo_budgetUtilization :: real

record roster_summary =
  playerCount :: nat
  rs_totalSpent :: int
  rs_remainingBudget :: int
  rs_budgetUtilization :: real
  averagePerPlayer :: real

record roster_entry =
  re_name :: string
  re_positions :: "string list"
  re_winningBid :: int
  re_mlbTeam :: string

record duke_roster =
  summary :: roster_summary
  roster_players :: "roster_entry list"
  positionBreakdown :: "(string \<times> breakdown_stat) list"
  priceTierBreakdown :: "(string \<times> tier_stat) list"

record league_market =
  positionStats :: "(string \<times> position_stat) list"
  priceTierStats :: "(string \<times> tier_stat) list"

record overall_comparison =
  dukeAvgBid :: real
  leagueAvgBid :: real
  oc_difference :: real
  oc_percentDiff :: real

record duke_vs_league =
  positionComparison :: "(string \<times> comparison_row) list"
  overallComparison :: overall_comparison

record team_comparison_row =
  tc_playerCount :: nat
  tc_totalSpent :: int
  avgPerPlayer :: real
  tc_remainingBudget :: int
  tc_budgetUtilization :: real

record historical_context =
  averageInflationRate :: real
  inflationStdDev :: real
  inflationRange_min :: real
  inflationRange_max :: real
  tierInflationPatterns :: "inflation_entry list"
  priceRangeInflation :: "inflation_entry list"
  positionInflation :: "inflation_entry list"

text \<open>The six key-finding strings and the five recommendations, again by their figures.\<close>

datatype key_finding =
    DraftedText nat int int real
  | AverageCostText real real
  | UtilizationText real int int
  | Tier1Text real
  | PremiumRangeText real
  | BudgetTierText real

datatype recommendation =
    FixedText string
  | RosterGapText int real int

record analysis =
  metadata :: report_metadata
  leagueOverview :: league_overview
  dukeRoster :: duke_roster
  leagueMarket :: league_market
  dukeVsLeague :: duke_vs_league
  teamComparison :: "(string \<times> team_comparison_row) list"
  historicalContext :: historical_context
  insights :: "insight list"
  keyFindings :: "key_finding list"
  recommendations :: "recommendation list"

text \<open>\<^verbatim>\<open>int(x)\<close> on a float truncates towards zero.\<close>

definition py_int :: "real \<Rightarrow> int" where
  "py_int x = (if 0 \<le> x then \<lfloor>x\<rfloor> else - \<lfloor>- x\<rfloor>)"

text \<open>The sub-dictionaries of the report literal, in the order the literal evaluates them.\<close>

definition league_overview_of ::
  "player list \<Rightarrow> (string \<times> team_bucket) list \<Rightarrow> int \<Rightarrow> league_overview result" where
  "league_overview_of all_players teams total_spent =
     bindE (py_div (real_of_int total_spent) (real (length teams))) (\<lambda>spend.
     bindE (py_div (real (length all_players)) (real (length teams))) (\<lambda>roster.
     bindE (py_div (real_of_int total_spent) (real (length teams * 260))) (\<lambda>q.
       Inr \<lparr>totalTeams = length teams, totalPlayersDrafted = length all_players,
            totalMoneySpent = total_spent, averageSpendPerTeam = spend,
            expectedBudgetPerTeam = 260, averageRosterSize = roster,
            lo_budgetUtilization = q * 100\<rparr>)))"

definition roster_summary_of :: "player list \<Rightarrow> int \<Rightarrow> roster_summary result" where
  "roster_summary_of duke_players duke_total =
     bindE (py_div (real_of_int duke_total) 260) (\<lambda>q.
     bindE (py_div (real_of_int duke_total) (real (length duke_players))) (\<lambda>per_player.
       Inr \<lparr>playerCount = length duke_players, rs_totalSpent = duke_total,
            rs_remainingBudget = 260 - duke_total, rs_budgetUtilization = q * 100,
            averagePerPlayer = per_player\<rparr>))"

definition roster_entry_of :: "player \<Rightarrow> roster_entry result" where
  "roster_entry_of p =
     bindE (get_key (fullName p)) (\<lambda>n.
     bindE (get_key (positions p)) (\<lambda>pos.
       Inr \<lparr>re_name = n, re_positions = pos, re_winningBid = winningBid p,
            re_mlbTeam = (case mlbTeam p of None \<Rightarrow> ''FA'' | Some t \<Rightarrow> t)\<rparr>))"

text \<open>
  \<^verbatim>\<open>sorted(entries, key=lambda x: x['winningBid'], reverse=True)\<close>: a stable sort into
  descending order of the key.
\<close>

definition sorted_roster :: "player list \<Rightarrow> roster_entry list result" where
  "sorted_roster duke_players =
     bindE (mapE roster_entry_of duke_players) (\<lambda>entries.
       Inr (sort_key (\<lambda>x. - re_winningBid x) entries))"

definition overall_comparison_of ::
  "player list \<Rightarrow> player list \<Rightarrow> int \<Rightarrow> int \<Rightarrow> overall_comparison result" where
  "overall_comparison_of duke_players all_players duke_total total_spent =
     bindE (py_div (real_of_int duke_total) (real (length duke_players))) (\<lambda>d.
     bindE (py_div (real_of_int total_spent) (real (length all_players))) (\<lambda>l.
     bindE (if length all_players > 0
            then bindE (py_div (d - l) l) (\<lambda>q. Inr (q * 100))
            else Inr 0) (\<lambda>pd.
       Inr \<lparr>dukeAvgBid = d, leagueAvgBid = l, oc_difference = d - l, oc_percentDiff = pd\<rparr>)))"

definition team_comparison_of :: "string \<times> team_bucket \<Rightarrow> (string \<times> team_comparison_row) result" where
  "team_comparison_of entry =
     (case entry of (team, data) \<Rightarrow>
        bindE (if tb_players data \<noteq> []
               then py_div (real_of_int (tb_total data)) (real (length (tb_players data)))
               else Inr 0) (\<lambda>avg.
        bindE (py_div (real_of_int (tb_total data)) 260) (\<lambda>q.
          Inr (team, \<lparr>tc_playerCount = length (tb_players data), tc_totalSpent = tb_total data,
                      avgPerPlayer = avg, tc_remainingBudget = 260 - tb_total data,
                      tc_budgetUtilization = q * 100\<rparr>))))"

definition key_findings_of ::
  "player list \<Rightarrow> player list \<Rightarrow> (string \<times> team_bucket) list \<Rightarrow> historical \<Rightarrow> int \<Rightarrow> int \<Rightarrow>
   key_finding list result" where
  "key_findings_of duke_players all_players teams hist duke_total total_spent =
     bindE (py_div (real_of_int (260 - duke_total)) 260) (\<lambda>left.
     bindE (py_div (real_of_int duke_total) (real (length duke_players))) (\<lambda>d.
     bindE (py_div (real_of_int total_spent) (real (length all_players))) (\<lambda>l.
     bindE (py_div (real_of_int total_spent) (real (length teams * 260))) (\<lambda>u.
     bindE (inflation_at (aggregateTierInflation hist) 0) (\<lambda>t1.
     bindE (inflation_at (aggregatePriceRangeInflation hist) 3) (\<lambda>r3.
     bindE (inflation_at (aggregatePriceRangeInflation hist) 0) (\<lambda>r0.
       Inr [DraftedText (length duke_players) duke_total (260 - duke_total) (left * 100),
            AverageCostText d l,
            UtilizationText (u * 100) total_spent (int (length teams * 260)),
            Tier1Text t1, PremiumRangeText r3, BudgetTierText r0])))))))"

definition recommendations_of ::
  "player list \<Rightarrow> player list \<Rightarrow> (string \<times> team_bucket) list \<Rightarrow> int \<Rightarrow> recommendation list result" where
  "recommendations_of duke_players all_players teams duke_total =
     bindE (py_div (real (length all_players)) (real (length teams))) (\<lambda>avg_roster.
       Inr [FixedText ''Focus remaining budget on value opportunities in mid-tier players ($16-$30 range)'',
            FixedText ''Historical data suggests elite players are typically undervalued - prioritize if available'',
            FixedText ''Avoid overpaying for replacement-level players in the $1-$5 range'',
            RosterGapText (260 - duke_total) avg_roster (py_int avg_roster - int (length duke_players)),
            FixedText ''Target positions where Duke has paid below league average for potential value adds''])"

text \<open>
  \<open>create_analysis\<close> takes the two documents that \<^verbatim>\<open>load_data\<close> parsed and returns the
  report that is written to the output file, or the exception that ends the run before
  anything is written.
\<close>

definition create_analysis :: "auction_data \<Rightarrow> historical \<Rightarrow> analysis result" where
  "create_analysis auction hist =
     (case extract_players auction of (all_players, duke_players) \<Rightarrow>
      let teams = analyze_teams all_players in
      bindE (analyze_positions all_players) (\<lambda>league_pos_stats.
      bindE (duke_position_breakdown duke_players) (\<lambda>duke_pos_breakdown.
      bindE (analyze_price_tiers all_players) (\<lambda>league_price_tiers.
      bindE (analyze_price_tiers duke_players) (\<lambda>duke_price_tiers.
      bindE (compare_duke_to_league duke_players all_players) (\<lambda>duke_vs_league.
      bindE (generate_insights duke_players all_players teams hist) (\<lambda>insight_list.
      let duke_total = sum_list (map winningBid duke_players);
          total_spent = sum_list (map winningBid all_players)
      in
      bindE (league_overview_of all_players teams total_spent) (\<lambda>overview.
      bindE (roster_summary_of duke_players duke_total) (\<lambda>roster_sum.
      bindE (sorted_roster duke_players) (\<lambda>roster.
      bindE (overall_comparison_of duke_players all_players duke_total total_spent) (\<lambda>overall.
      bindE (mapE team_comparison_of teams) (\<lambda>team_rows.
      bindE (key_findings_of duke_players all_players teams hist duke_total total_spent) (\<lambda>findings.
      bindE (recommendations_of duke_players all_players teams duke_total) (\<lambda>recs.
        Inr \<lparr>metadata = \<lparr>roomId = ''1362'', leagueName = ''Duke Draft'',
                         leagueType = ''15-team dynasty'', projectionSystem = ''Steamer'',
                         analysisDate = fetchedAt auction\<rparr>,
             leagueOverview = overview,
             dukeRoster = \<lparr>summary = roster_sum, roster_players = roster,
                           positionBreakdown = duke_pos_breakdown,
                           priceTierBreakdown = duke_price_tiers\<rparr>,
             leagueMarket = \<lparr>positionStats = league_pos_stats,
                             priceTierStats = league_price_tiers\<rparr>,
             dukeVsLeague = \<lparr>positionComparison = duke_vs_league, overallComparison = overall\<rparr>,
             teamComparison = team_rows,
             historicalContext =
               \<lparr>averageInflationRate = avgOverallInflationRate hist,
                inflationStdDev = stdDevInflationRate hist,
                inflationRange_min = minInflationRate hist,
                inflationRange_max = maxInflationRate hist,
                tierInflationPatterns = aggregateTierInflation hist,
                priceRangeInflation = aggregatePriceRangeInflation hist,
                positionInflation = aggregatePositionInflation hist\<rparr>,
             insights = insight_list,
             keyFindings = findings,
             recommendations = recs\<rparr>))))))))))))))"

section \<open>Auxiliary notions for the statements\<close>

text \<open>The bucket that holds exactly the players \<open>qs\<close>.\<close>

definition bucket_of :: "player list \<Rightarrow> team_bucket" where
  "bucket_of qs = \<lparr>tb_players = qs, tb_total = sum_list (map winningBid qs)\<rparr>"

text \<open>
  The bids that one player contributes to the bucket of \<open>pos\<close>: its bid, once for every
  occurrence of \<open>pos\<close> in its positions list.
\<close>

definition occ_bids :: "string \<Rightarrow> player \<Rightarrow> int list" where
  "occ_bids pos p = map (\<lambda>_. winningBid p) (filter (\<lambda>q. q = pos) (get_positions p))"

definition acc_of :: "int list \<Rightarrow> position_acc" where
  "acc_of bs = \<lparr>bids = bs, acc_count = length bs\<rparr>"

text \<open>The statistics of a non-empty list of bids, as \<open>position_row\<close> computes them.\<close>

definition stat_of :: "int list \<Rightarrow> position_stat" where
  "stat_of bs =
     \<lparr>ps_count = length bs, ps_totalSpent = sum_list bs,
      ps_avgBid = real_of_int (sum_list bs) / real (length bs),
      ps_medianBid = (case median bs of Inr m \<Rightarrow> m | Inl _ \<Rightarrow> 0),
      ps_maxBid = fold max (tl bs) (hd bs), ps_minBid = fold min (tl bs) (hd bs),
      ps_stdDev =
        (if length bs > 1
         then sqrt (sum_list (map (\<lambda>x. (real_of_int x
                                          - real_of_int (sum_list bs) / real (length bs))\<^sup>2) bs)
                    / real (length bs - 1))
         else 0)\<rparr>"

text \<open>
  The players of a tier, whether a tier has a member, and the dictionary entry that the
  comprehension of \<open>analyze_price_tiers\<close> builds for a tier.
\<close>

definition tier_members :: "player list \<Rightarrow> int \<times> int \<times> string \<Rightarrow> player list" where
  "tier_members ps t = filter (in_tier (fst t) (fst (snd t))) ps"

definition has_member :: "player list \<Rightarrow> int \<times> int \<times> string \<Rightarrow> bool" where
  "has_member ps t = list_ex (in_tier (fst t) (fst (snd t))) ps"

definition tier_entry :: "player list \<Rightarrow> int \<times> int \<times> string \<Rightarrow> string \<times> tier_stat" where
  "tier_entry ps t =
     (let members = tier_members ps t; total_spent = sum_list (map winningBid ps) in
      (snd (snd t),
       \<lparr>minPrice = fst t, maxPrice = (if fst (snd t) < 999 then Some (fst (snd t)) else None),
        t_count = length members, t_totalSpent = sum_list (map winningBid members),
        percentOfTotal = (if total_spent > 0
                          then real_of_int (sum_list (map winningBid members))
                               / real_of_int total_spent * 100
                          else 0),
        t_avgBid = (if members \<noteq> []
                    then real_of_int (sum_list (map winningBid members)) / real (length members)
                    else 0)\<rparr>))"

text \<open>
  The rounded percentage of a tier and the dictionary entry of a tier when the float
  operations round.
\<close>

definition float_pct :: "(real \<Rightarrow> real) \<Rightarrow> player list \<Rightarrow> int \<times> int \<times> string \<Rightarrow> real" where
  "float_pct rnd ps t =
     (if sum_list (map winningBid ps) > 0
      then rnd (rnd (real_of_int (sum_list (map winningBid (tier_members ps t)))
                     / real_of_int (sum_list (map winningBid ps))) * 100)
      else 0)"

definition tier_entry_float ::
  "(real \<Rightarrow> real) \<Rightarrow> player list \<Rightarrow> int \<times> int \<times> string \<Rightarrow> string \<times> tier_stat" where
  "tier_entry_float rnd ps t =
     (let members = tier_members ps t in
      (snd (snd t),
       \<lparr>minPrice = fst t, maxPrice = (if fst (snd t) < 999 then Some (fst (snd t)) else None),
        t_count = length members, t_totalSpent = sum_list (map winningBid members),
        percentOfTotal = float_pct rnd ps t,
        t_avgBid = (if members \<noteq> []
                    then rnd (real_of_int (sum_list (map winningBid members)) / real (length members))
                    else 0)\<rparr>))"

text \<open>
  The arithmetic mean of a list of bids, the copies of a player that land in the bucket of
  a position, and the invariant of the comparator's loop.
\<close>

definition avg :: "int list \<Rightarrow> real" where
  "avg bs = real_of_int (sum_list bs) / real (length bs)"

definition occ_players :: "string \<Rightarrow> player \<Rightarrow> player list" where
  "occ_players pos p = map (\<lambda>_. p) (filter (\<lambda>q. q = pos) (get_positions p))"

definition row_ok :: "(string \<times> position_stat) list \<Rightarrow> (string \<times> breakdown_stat) list \<Rightarrow>
    string \<times> comparison_row \<Rightarrow> bool" where
  "row_ok lg bd kv =
     (\<exists>d l. (fst kv, d) \<in> set bd \<and> map_of lg (fst kv) = Some l \<and>
        dukeAvg (snd kv) = bd_avgBid d \<and> leagueAvg (snd kv) = ps_avgBid l \<and>
        cmp_interpretation (snd kv) =
          (if dukeAvg (snd kv) > leagueAvg (snd kv) then ''overpaid'' else ''value''))"

section \<open>A small league used for the concrete checks\<close>

definition ann :: player where
  "ann = \<lparr>fullName = Some ''Ann'', positions = Some [''OF''], winningTeam = Some ''Duke'',
          mlbTeam = None, winningBid = 10\<rparr>"

definition bob :: player where
  "bob = \<lparr>fullName = Some ''Bob'', positions = Some [''OF'', ''SP''], winningTeam = None,
          mlbTeam = Some ''NYY'', winningBid = 5\<rparr>"

definition cy :: player where
  "cy = \<lparr>fullName = Some ''Cy'', positions = Some [''OF'', ''1B''], winningTeam = Some ''Duke'',
         mlbTeam = None, winningBid = 20\<rparr>"

definition small_league :: "player list" where
  "small_league = [ann, bob, cy]"

text \<open>A player whose positions list names the same code twice.\<close>

definition dup :: player where
  "dup = \<lparr>fullName = Some ''Dee'', positions = Some [''OF'', ''OF''], winningTeam = Some ''Duke'',
          mlbTeam = None, winningBid = 7\<rparr>"

text \<open>A rounding function that shortens every result by the relative error 2 to the power -53.\<close>

definition round_down :: "real \<Rightarrow> real" where
  "round_down x = x * (1 - 1 / 2 ^ 53)"

text \<open>A drafted player with a winning bid of 0, and one with a winning bid of 1000.\<close>

definition big_bid :: player where
  "big_bid = \<lparr>fullName = Some ''Max'', positions = Some [''SP''], winningTeam = Some ''Duke'',
              mlbTeam = None, winningBid = 1000\<rparr>"

definition zero_bid :: player where
  "zero_bid = \<lparr>fullName = Some ''Zed'', positions = Some [''RP''], winningTeam = Some ''Duke'',
               mlbTeam = None, winningBid = 0\<rparr>"

text \<open>
  The auction snapshot of the small league (with one undrafted player and one drafted
  player without a winning bid, which the extractor drops), two snapshots without any
  player of the target team, and historical references with four and with three
  price-range buckets.
\<close>

definition raw_of :: "player \<Rightarrow> raw_player" where
  "raw_of p = \<lparr>fullName = fullName p, positions = positions p, winningTeam = winningTeam p,
               mlbTeam = mlbTeam p, status = Some ''drafted'', winningBid_field = Some (winningBid p)\<rparr>"

definition small_auction :: auction_data where
  "small_auction =
     \<lparr>fetchedAt = ''2025-01-01T00:00:00Z'',
      players =
        [raw_of ann,
         \<lparr>fullName = Some ''Eve'', positions = Some [''C''], winningTeam = None, mlbTeam = None,
          status = Some ''available'', winningBid_field = None\<rparr>,
         raw_of bob,
         \<lparr>fullName = Some ''Flo'', positions = Some [''SS''], winningTeam = Some ''Duke'',
          mlbTeam = None, status = Some ''drafted'', winningBid_field = None\<rparr>,
         raw_of cy]\<rparr>"

definition entry :: "real \<Rightarrow> inflation_entry" where
  "entry r = \<lparr>avgInflationRate = Some r\<rparr>"

definition small_hist :: historical where
  "small_hist =
     \<lparr>avgOverallInflationRate = 20, stdDevInflationRate = 5, minInflationRate = 10,
      maxInflationRate = 30,
      aggregateTierInflation = [entry (-5), entry 12],
      aggregatePriceRangeInflation = [entry 80, entry 30, entry 10, entry (-8)],
      aggregatePositionInflation = []\<rparr>"

definition short_hist :: historical where
  "short_hist = small_hist\<lparr>aggregatePriceRangeInflation := [entry 80, entry 30, entry 10]\<rparr>"

definition empty_auction :: auction_data where
  "empty_auction = \<lparr>fetchedAt = ''2025-01-01T00:00:00Z'', players = []\<rparr>"

definition no_duke_auction :: auction_data where
  "no_duke_auction = \<lparr>fetchedAt = ''2025-01-01T00:00:00Z'', players = [raw_of bob]\<rparr>"


section \<open>Basic facts about failures and dictionaries\<close>

lemma bindE_Inr [simp]: "bindE (Inr a) f = f a"
  by (simp add: bindE_def)

lemma bindE_Inl [simp]: "bindE (Inl e) f = Inl e"
  by (simp add: bindE_def)

lemma mapE_total:
  assumes "\<And>x. x \<in> set xs \<Longrightarrow> f x = Inr (g x)"
  shows "mapE f xs = Inr (map g xs)"
  using assms by (induction xs) simp_all

lemma map_of_dd_modify:
  "map_of (dd_modify k d f al) k' =
     (if k' = k then Some (f (case map_of al k of None \<Rightarrow> d | Some v \<Rightarrow> v)) else map_of al k')"
  by (simp add: dd_modify_def update_conv')

lemma keys_dd_modify:
  "map fst (dd_modify k d f al) =
     (if k \<in> set (map fst al) then map fst al else map fst al @ [k])"
  by (simp add: dd_modify_def update_keys)

lemma distinct_dd_modify:
  "distinct (map fst al) \<Longrightarrow> distinct (map fst (dd_modify k d f al))"
  by (simp add: dd_modify_def distinct_update)

lemma sum_list_update:
  fixes g :: "'v \<Rightarrow> int"
  shows "sum_list (map (\<lambda>kv. g (snd kv)) (AList.update k v al)) =
         sum_list (map (\<lambda>kv. g (snd kv)) al)
           - (case map_of al k of None \<Rightarrow> 0 | Some w \<Rightarrow> g w) + g v"
  by (induction al) auto

section \<open>Team aggregator: every player lands in the bucket of its team\<close>

lemma map_of_team_step:
  "map_of (team_step p m) k =
     (if k = team_key p
      then Some (add_to_team p (case map_of m k of
                                  None \<Rightarrow> \<lparr>tb_players = [], tb_total = 0\<rparr> | Some b \<Rightarrow> b))
      else map_of m k)"
  by (simp add: team_step_def map_of_dd_modify)

lemma team_step_total:
  "sum_list (map (\<lambda>kv. tb_total (snd kv)) (team_step p m)) =
   sum_list (map (\<lambda>kv. tb_total (snd kv)) m) + winningBid p"
  by (simp add: team_step_def dd_modify_def sum_list_update add_to_team_def split: option.splits)

lemma team_fold_total:
  "sum_list (map (\<lambda>kv. tb_total (snd kv)) (fold team_step ps m)) =
   sum_list (map (\<lambda>kv. tb_total (snd kv)) m) + sum_list (map winningBid ps)"
  by (induction ps arbitrary: m) (simp_all add: team_step_total)

lemma team_fold_distinct:
  "distinct (map fst m) \<Longrightarrow> distinct (map fst (fold team_step ps m))"
  by (induction ps arbitrary: m) (simp_all add: team_step_def distinct_dd_modify)

lemma team_fold_lookup:
  "map_of (fold team_step ps m) k =
     (let qs = filter (\<lambda>p. team_key p = k) ps in
      case map_of m k of
        None \<Rightarrow> if qs = [] then None else Some (bucket_of qs)
      | Some b \<Rightarrow> Some \<lparr>tb_players = tb_players b @ qs,
                        tb_total = tb_total b + sum_list (map winningBid qs)\<rparr>)"
proof (induction ps arbitrary: m)
  case Nil
  show ?case by (simp split: option.splits)
next
  case (Cons p ps)
  show ?case
    by (simp add: Cons.IH map_of_team_step add_to_team_def bucket_of_def Let_def
        split: option.splits)
qed

lemma analyze_teams_lookup:
  "map_of (analyze_teams ps) k =
     (if filter (\<lambda>p. team_key p = k) ps = [] then None
      else Some (bucket_of (filter (\<lambda>p. team_key p = k) ps)))"
  by (simp add: analyze_teams_def team_fold_lookup Let_def)

lemma analyze_teams_distinct: "distinct (map fst (analyze_teams ps))"
  by (simp add: analyze_teams_def team_fold_distinct)

text \<open>
  C9. The team aggregator puts every player into exactly one bucket, the one of its
  \<^verbatim>\<open>winningTeam\<close> (\<open>Unknown\<close> when the field is absent): the keys are distinct, the bucket
  of a key holds exactly the players of that key, in input order, every player's key is
  present, a bucket's total is the sum of the bids of the players stored in it, and the
  totals of all buckets add up to the sum of all bids.
\<close>

theorem analyze_teams_partition:
  "distinct (map fst (analyze_teams ps)) \<and>
   (\<forall>(k, b) \<in> set (analyze_teams ps).
       tb_players b = filter (\<lambda>p. team_key p = k) ps \<and>
       tb_total b = sum_list (map winningBid (tb_players b))) \<and>
   (\<forall>p \<in> set ps. team_key p \<in> fst ` set (analyze_teams ps)) \<and>
   (\<forall>p \<in> set ps. winningTeam p = None \<longrightarrow> team_key p = ''Unknown'') \<and>
   sum_list (map (\<lambda>kv. tb_total (snd kv)) (analyze_teams ps)) = sum_list (map winningBid ps)"
proof (intro conjI)
  show d: "distinct (map fst (analyze_teams ps))"
    by (rule analyze_teams_distinct)
  show "\<forall>(k, b) \<in> set (analyze_teams ps).
       tb_players b = filter (\<lambda>p. team_key p = k) ps \<and>
       tb_total b = sum_list (map winningBid (tb_players b))"
  proof (clarify)
    fix k b assume "(k, b) \<in> set (analyze_teams ps)"
    with d have "map_of (analyze_teams ps) k = Some b" by simp
    then have "b = bucket_of (filter (\<lambda>p. team_key p = k) ps)"
      by (simp add: analyze_teams_lookup split: if_splits)
    then show "tb_players b = filter (\<lambda>p. team_key p = k) ps \<and>
       tb_total b = sum_list (map winningBid (tb_players b))"
      by (simp add: bucket_of_def)
  qed
  show "\<forall>p \<in> set ps. team_key p \<in> fst ` set (analyze_teams ps)"
  proof
    fix p assume "p \<in> set ps"
    then have "filter (\<lambda>q. team_key q = team_key p) ps \<noteq> []"
      by (auto simp: filter_empty_conv)
    then have "map_of (analyze_teams ps) (team_key p) \<noteq> None"
      by (simp add: analyze_teams_lookup)
    then show "team_key p \<in> fst ` set (analyze_teams ps)"
      by (simp add: map_of_eq_None_iff)
  qed
  show "\<forall>p \<in> set ps. winningTeam p = None \<longrightarrow> team_key p = ''Unknown''"
    by (simp add: team_key_def)
  show "sum_list (map (\<lambda>kv. tb_total (snd kv)) (analyze_teams ps)) = sum_list (map winningBid ps)"
    by (simp add: analyze_teams_def team_fold_total)
qed

theorem analyze_teams_partition_witness:
  "analyze_teams small_league =
     [(''Duke'', \<lparr>tb_players = [ann, cy], tb_total = 30\<rparr>),
      (''Unknown'', \<lparr>tb_players = [bob], tb_total = 5\<rparr>)] \<and>
   winningTeam bob = None \<and> team_key bob = ''Unknown'' \<and>
   filter (\<lambda>p. team_key p = ''Duke'') small_league = [ann, cy] \<and>
   sum_list (map (\<lambda>kv. tb_total (snd kv)) (analyze_teams small_league)) = 35 \<and>
   sum_list (map winningBid small_league) = 35"
  using analyze_teams_partition [of small_league]
  by (simp add: small_league_def ann_def bob_def cy_def analyze_teams_def team_step_def dd_modify_def
      team_key_def add_to_team_def)

section \<open>Position aggregator: what each bucket holds\<close>

lemma map_of_position_step:
  "map_of (position_step b pos m) k =
     (if k = pos
      then Some (add_bid b (case map_of m k of None \<Rightarrow> \<lparr>bids = [], acc_count = 0\<rparr> | Some a \<Rightarrow> a))
      else map_of m k)"
  by (simp add: position_step_def map_of_dd_modify)

lemma position_fold_lookup:
  "map_of (fold (position_step b) poss m) k =
     (let n = map (\<lambda>_. b) (filter (\<lambda>q. q = k) poss) in
      case map_of m k of
        None \<Rightarrow> if n = [] then None else Some (acc_of n)
      | Some a \<Rightarrow> Some \<lparr>bids = bids a @ n, acc_count = acc_count a + length n\<rparr>)"
proof (induction poss arbitrary: m)
  case Nil
  show ?case by (simp split: option.splits)
next
  case (Cons q poss)
  show ?case
    by (simp add: Cons.IH map_of_position_step add_bid_def acc_of_def Let_def split: option.splits)
qed

lemma map_of_player_step:
  "map_of (player_step p m) k =
     (case map_of m k of
        None \<Rightarrow> if occ_bids k p = [] then None else Some (acc_of (occ_bids k p))
      | Some a \<Rightarrow> Some \<lparr>bids = bids a @ occ_bids k p, acc_count = acc_count a + length (occ_bids k p)\<rparr>)"
  by (simp add: player_step_def position_fold_lookup occ_bids_def Let_def split: option.splits)

lemma player_fold_lookup:
  "map_of (fold player_step ps m) k =
     (let bs = concat (map (occ_bids k) ps) in
      case map_of m k of
        None \<Rightarrow> if bs = [] then None else Some (acc_of bs)
      | Some a \<Rightarrow> Some \<lparr>bids = bids a @ bs, acc_count = acc_count a + length bs\<rparr>)"
proof (induction ps arbitrary: m)
  case Nil
  show ?case by (simp split: option.splits)
next
  case (Cons p ps)
  show ?case
    by (simp add: Cons.IH map_of_player_step acc_of_def Let_def split: option.splits)
qed

lemma collect_positions_lookup:
  "map_of (collect_positions ps) k =
     (if concat (map (occ_bids k) ps) = [] then None
      else Some (acc_of (concat (map (occ_bids k) ps))))"
  by (simp add: collect_positions_def player_fold_lookup Let_def)

lemma position_fold_distinct:
  "distinct (map fst m) \<Longrightarrow> distinct (map fst (fold (position_step b) poss m))"
  by (induction poss arbitrary: m) (simp_all add: position_step_def distinct_dd_modify)

lemma player_fold_distinct:
  "distinct (map fst m) \<Longrightarrow> distinct (map fst (fold player_step ps m))"
  by (induction ps arbitrary: m) (simp_all add: player_step_def position_fold_distinct)

lemma collect_positions_distinct: "distinct (map fst (collect_positions ps))"
  by (simp add: collect_positions_def player_fold_distinct)

lemma collect_positions_entry:
  assumes "(k, a) \<in> set (collect_positions ps)"
  shows "a = acc_of (concat (map (occ_bids k) ps)) \<and> concat (map (occ_bids k) ps) \<noteq> []"
proof -
  from assms collect_positions_distinct [of ps]
  have "map_of (collect_positions ps) k = Some a" by simp
  then show ?thesis
    by (simp add: collect_positions_lookup split: if_splits)
qed

lemma bids_acc_of [simp]: "bids (acc_of bs) = bs"
  by (simp add: acc_of_def)

lemma median_ok:
  assumes "bs \<noteq> []"
  shows "\<exists>m. median bs = Inr m"
proof -
  have n: "(length (sort bs) = 0) = False" using assms by simp
  have ex: "\<exists>m. (if c then Inr x else Inr y) = (Inr m :: real result)" for c x y
    by (cases c) simp_all
  show ?thesis
    unfolding median_def Let_def by (simp only: n if_False ex)
qed

lemma position_row_ok:
  assumes "bs \<noteq> []"
  shows "position_row (acc_of bs) = Inr (stat_of bs)"
proof -
  obtain m where m: "median bs = Inr m" using median_ok [OF assms] by blast
  obtain x rest where bs: "bs = x # rest" using assms by (cases bs) auto
  have "1 < length bs \<Longrightarrow> \<not> length bs < 2" by simp
  then show ?thesis
    using assms m
    by (simp add: position_row_def acc_of_def stat_of_def mean_def py_max_def py_min_def
        stdev_def Let_def bs)
qed

lemma analyze_positions_eq:
  "analyze_positions ps = Inr (map (\<lambda>(pos, a). (pos, stat_of (bids a))) (collect_positions ps))"
  unfolding analyze_positions_def
proof (rule mapE_total)
  fix x assume x: "x \<in> set (collect_positions ps)"
  obtain k a where ka: "x = (k, a)" by (cases x)
  from collect_positions_entry [of k a ps] x ka
  have "a = acc_of (concat (map (occ_bids k) ps))" "concat (map (occ_bids k) ps) \<noteq> []" by simp_all
  then show "(case x of (pos, st) \<Rightarrow> bindE (position_row st) (\<lambda>row. Inr (pos, row))) =
             Inr (case x of (pos, a) \<Rightarrow> (pos, stat_of (bids a)))"
    by (simp add: ka position_row_ok)
qed

lemma analyze_positions_entry:
  assumes "analyze_positions ps = Inr out" "(pos, st) \<in> set out"
  shows "st = stat_of (concat (map (occ_bids pos) ps)) \<and> concat (map (occ_bids pos) ps) \<noteq> []"
proof -
  from assms obtain a where "(pos, a) \<in> set (collect_positions ps)" "st = stat_of (bids a)"
    by (auto simp: analyze_positions_eq)
  with collect_positions_entry [of pos a ps] show ?thesis by simp
qed

lemma filter_eq_distinct:
  "distinct xs \<Longrightarrow> filter (\<lambda>q. q = k) xs = (if k \<in> set xs then [k] else [])"
  by (induction xs) auto

lemma occ_bids_distinct:
  "distinct (get_positions p) \<Longrightarrow>
   occ_bids k p = (if k \<in> set (get_positions p) then [winningBid p] else [])"
  by (simp add: occ_bids_def filter_eq_distinct)

lemma concat_occ_bids_distinct:
  "(\<And>p. p \<in> set ps \<Longrightarrow> distinct (get_positions p)) \<Longrightarrow>
   concat (map (occ_bids k) ps) = map winningBid (filter (\<lambda>p. k \<in> set (get_positions p)) ps)"
  by (induction ps) (simp_all add: occ_bids_distinct)


lemma sum_occ_bids:
  "sum_list (occ_bids k p) = int (length (filter (\<lambda>q. q = k) (get_positions p))) * winningBid p"
  by (simp add: occ_bids_def map_replicate_const sum_list_replicate)

lemma sum_concat_occ_bids:
  "sum_list (concat (map (occ_bids k) ps)) =
   (\<Sum>p\<leftarrow>ps. int (length (filter (\<lambda>q. q = k) (get_positions p))) * winningBid p)"
  by (induction ps) (simp_all add: sum_occ_bids)

text \<open>
  C5 (amended). The position aggregator never fails, and for every position code in its
  output \<open>totalSpent\<close> is the sum over the players of the bid times the number of times the
  code occurs in the player's positions list. When no positions list repeats a code, this
  is the sum of \<open>winningBid\<close> over exactly the players whose positions list contains the
  code.
\<close>

theorem analyze_positions_totalSpent:
  "\<exists>out. analyze_positions ps = Inr out \<and>
     (\<forall>(pos, st) \<in> set out.
        ps_totalSpent st =
          (\<Sum>p\<leftarrow>ps. int (length (filter (\<lambda>q. q = pos) (get_positions p))) * winningBid p) \<and>
        ((\<forall>p \<in> set ps. distinct (get_positions p)) \<longrightarrow>
           ps_totalSpent st =
             sum_list (map winningBid (filter (\<lambda>p. pos \<in> set (get_positions p)) ps))))"
proof -
  obtain out where out: "analyze_positions ps = Inr out"
    by (simp add: analyze_positions_eq)
  have "ps_totalSpent st =
          (\<Sum>p\<leftarrow>ps. int (length (filter (\<lambda>q. q = pos) (get_positions p))) * winningBid p) \<and>
        ((\<forall>p \<in> set ps. distinct (get_positions p)) \<longrightarrow>
           ps_totalSpent st =
             sum_list (map winningBid (filter (\<lambda>p. pos \<in> set (get_positions p)) ps)))"
    if "(pos, st) \<in> set out" for pos st
  proof -
    from analyze_positions_entry [OF out that]
    have t: "ps_totalSpent st = sum_list (concat (map (occ_bids pos) ps))"
      by (simp add: stat_of_def)
    have "ps_totalSpent st =
            sum_list (map winningBid (filter (\<lambda>p. pos \<in> set (get_positions p)) ps))"
      if "\<forall>p \<in> set ps. distinct (get_positions p)"
      using t concat_occ_bids_distinct [of ps pos] that by simp
    with t show ?thesis by (simp only: sum_concat_occ_bids) blast
  qed
  with out show ?thesis by blast
qed

lemma analyze_positions_league:
  "analyze_positions small_league =
     Inr [(''OF'', \<lparr>ps_count = 3, ps_totalSpent = 35, ps_avgBid = 35 / 3, ps_medianBid = 10,
                    ps_maxBid = 20, ps_minBid = 5, ps_stdDev = sqrt (175 / 3)\<rparr>),
          (''SP'', \<lparr>ps_count = 1, ps_totalSpent = 5, ps_avgBid = 5, ps_medianBid = 5,
                    ps_maxBid = 5, ps_minBid = 5, ps_stdDev = 0\<rparr>),
          (''1B'', \<lparr>ps_count = 1, ps_totalSpent = 20, ps_avgBid = 20, ps_medianBid = 20,
                    ps_maxBid = 20, ps_minBid = 20, ps_stdDev = 0\<rparr>)]"
  by (simp add: small_league_def ann_def bob_def cy_def analyze_positions_def collect_positions_def
      player_step_def position_step_def dd_modify_def get_positions_def add_bid_def
      position_row_def mean_def median_def py_max_def py_min_def stdev_def power2_eq_square)

theorem analyze_positions_totalSpent_witness:
  "analyze_positions small_league =
     Inr [(''OF'', \<lparr>ps_count = 3, ps_totalSpent = 35, ps_avgBid = 35 / 3, ps_medianBid = 10,
                    ps_maxBid = 20, ps_minBid = 5, ps_stdDev = sqrt (175 / 3)\<rparr>),
          (''SP'', \<lparr>ps_count = 1, ps_totalSpent = 5, ps_avgBid = 5, ps_medianBid = 5,
                    ps_maxBid = 5, ps_minBid = 5, ps_stdDev = 0\<rparr>),
          (''1B'', \<lparr>ps_count = 1, ps_totalSpent = 20, ps_avgBid = 20, ps_medianBid = 20,
                    ps_maxBid = 20, ps_minBid = 20, ps_stdDev = 0\<rparr>)] \<and>
   distinct (get_positions ann) \<and> distinct (get_positions bob) \<and> distinct (get_positions cy) \<and>
   sum_list (map winningBid (filter (\<lambda>p. ''OF'' \<in> set (get_positions p)) small_league)) = 35"
  using analyze_positions_totalSpent [of small_league] analyze_positions_league
  by (simp add: small_league_def ann_def bob_def cy_def get_positions_def)

text \<open>
  C5 as stated fails for a player listed twice at one position: the bid is appended once
  per list entry, so the bucket's total is 14 while the only player eligible at the
  position bid 7.
\<close>

theorem analyze_positions_duplicate_counterexample:
  "analyze_positions [dup] =
     Inr [(''OF'', \<lparr>ps_count = 2, ps_totalSpent = 14, ps_avgBid = 7, ps_medianBid = 7,
                    ps_maxBid = 7, ps_minBid = 7, ps_stdDev = 0\<rparr>)] \<and>
   sum_list (map winningBid (filter (\<lambda>p. ''OF'' \<in> set (get_positions p)) [dup])) = 7"
  by (simp add: dup_def analyze_positions_def collect_positions_def
      player_step_def position_step_def dd_modify_def get_positions_def add_bid_def
      position_row_def mean_def median_def py_max_def py_min_def stdev_def)

text \<open>
  C7. The position aggregator raises no error, and every bucket of its output with fewer
  than two bid observations reports a standard deviation of exactly 0.
\<close>

theorem analyze_positions_stdDev:
  "\<exists>out. analyze_positions ps = Inr out \<and>
       (\<forall>(pos, st) \<in> set out. ps_count st < 2 \<longrightarrow> ps_stdDev st = 0)"
proof -
  obtain out where out: "analyze_positions ps = Inr out"
    by (simp add: analyze_positions_eq)
  have "ps_stdDev st = 0" if "(pos, st) \<in> set out" "ps_count st < 2" for pos st
    using analyze_positions_entry [OF out that(1)] that(2)
    by (simp add: stat_of_def)
  with out show ?thesis by blast
qed

theorem analyze_positions_stdDev_witness:
  "(\<exists>out st. analyze_positions small_league = Inr out \<and> (''SP'', st) \<in> set out \<and>
       ps_count st = 1 \<and> ps_count st < 2 \<and> ps_stdDev st = 0)"
  using analyze_positions_stdDev [of small_league] analyze_positions_league
  by simp


section \<open>Price-tier aggregator\<close>

lemma list_ex_filter: "list_ex P xs \<longleftrightarrow> filter P xs \<noteq> []"
  by (induction xs) auto

lemma tier_row_eq:
  "bindE (tier_row ps (sum_list (map winningBid ps)) min_p max_p) (\<lambda>row. Inr (label, row)) =
   Inr (tier_entry ps (min_p, max_p, label))"
  by (simp add: tier_row_def tier_entry_def tier_members_def Let_def py_div_def mean_def
      list_ex_filter)

lemma analyze_price_tiers_eq:
  "analyze_price_tiers ps = Inr (map (tier_entry ps) (filter (has_member ps) tiers))"
proof -
  have "mapE (\<lambda>(min_p, max_p, label).
              bindE (tier_row ps (sum_list (map winningBid ps)) min_p max_p) (\<lambda>row. Inr (label, row)))
          (filter (has_member ps) tiers) =
        Inr (map (tier_entry ps) (filter (has_member ps) tiers))"
    by (rule mapE_total) (auto simp: tier_row_eq)
  moreover have "(\<lambda>(min_p, max_p, label). list_ex (in_tier min_p max_p) ps) = has_member ps"
    by (auto simp: has_member_def fun_eq_iff)
  ultimately show ?thesis
    by (simp add: analyze_price_tiers_def Let_def)
qed

lemma tier_entry_fields:
  "fst (tier_entry ps t) = snd (snd t)"
  "t_count (snd (tier_entry ps t)) = length (tier_members ps t)"
  "t_totalSpent (snd (tier_entry ps t)) = sum_list (map winningBid (tier_members ps t))"
  "percentOfTotal (snd (tier_entry ps t)) =
     (if sum_list (map winningBid ps) > 0
      then real_of_int (sum_list (map winningBid (tier_members ps t)))
           / real_of_int (sum_list (map winningBid ps)) * 100
      else 0)"
  by (simp_all add: tier_entry_def Let_def)

lemma sum_list_filter_zero:
  fixes f :: "'a \<Rightarrow> 'b::comm_monoid_add"
  assumes "\<And>x. x \<in> set xs \<Longrightarrow> \<not> P x \<Longrightarrow> f x = 0"
  shows "sum_list (map f (filter P xs)) = sum_list (map f xs)"
  using assms by (induction xs) auto

lemma no_member_empty: "\<not> has_member ps t \<Longrightarrow> tier_members ps t = []"
  by (simp add: has_member_def tier_members_def list_ex_filter)

lemma emitted_counts:
  "(\<Sum>kv\<leftarrow>map (tier_entry ps) (filter (has_member ps) tiers). t_count (snd kv)) =
   (\<Sum>t\<leftarrow>tiers. length (tier_members ps t))"
proof -
  have "(\<Sum>t\<leftarrow>filter (has_member ps) tiers. length (tier_members ps t)) =
        (\<Sum>t\<leftarrow>tiers. length (tier_members ps t))"
    by (rule sum_list_filter_zero) (simp add: no_member_empty)
  then show ?thesis by (simp add: comp_def tier_entry_fields)
qed

lemma emitted_totals:
  "(\<Sum>kv\<leftarrow>map (tier_entry ps) (filter (has_member ps) tiers). t_totalSpent (snd kv)) =
   (\<Sum>t\<leftarrow>tiers. sum_list (map winningBid (tier_members ps t)))"
proof -
  have "(\<Sum>t\<leftarrow>filter (has_member ps) tiers. sum_list (map winningBid (tier_members ps t))) =
        (\<Sum>t\<leftarrow>tiers. sum_list (map winningBid (tier_members ps t)))"
    by (rule sum_list_filter_zero) (simp add: no_member_empty)
  then show ?thesis by (simp add: comp_def tier_entry_fields)
qed

lemma six_tier_count:
  assumes "\<forall>p \<in> set ps. 1 \<le> winningBid p \<and> winningBid p \<le> 999"
  shows "(\<Sum>t\<leftarrow>tiers. length (tier_members ps t)) = length ps"
  using assms by (induction ps) (auto simp: tiers_def tier_members_def in_tier_def)

lemma six_tier_total:
  assumes "\<forall>p \<in> set ps. 0 \<le> winningBid p \<and> winningBid p \<le> 999"
  shows "(\<Sum>t\<leftarrow>tiers. sum_list (map winningBid (tier_members ps t))) = sum_list (map winningBid ps)"
  using assms by (induction ps) (auto simp: tiers_def tier_members_def in_tier_def)

lemma tiers_labels_distinct: "distinct (map (\<lambda>t. snd (snd t)) tiers)"
  by (simp add: tiers_def)

lemma label_absent:
  assumes "distinct (map g ts)" "t \<in> set ts" "\<not> P t"
  shows "g t \<notin> g ` set (filter P ts)"
  using assms by (induction ts) (auto simp: image_iff)

lemma analyze_price_tiers_league:
  "analyze_price_tiers small_league =
     Inr [(''Filler ($1-$5)'',
           \<lparr>minPrice = 1, maxPrice = Some 5, t_count = 1, t_totalSpent = 5,
            percentOfTotal = 100 / 7, t_avgBid = 5\<rparr>),
          (''Value ($6-$10)'',
           \<lparr>minPrice = 6, maxPrice = Some 10, t_count = 1, t_totalSpent = 10,
            percentOfTotal = 200 / 7, t_avgBid = 10\<rparr>),
          (''Quality ($16-$20)'',
           \<lparr>minPrice = 16, maxPrice = Some 20, t_count = 1, t_totalSpent = 20,
            percentOfTotal = 400 / 7, t_avgBid = 20\<rparr>)]"
  by (simp add: analyze_price_tiers_eq tiers_def has_member_def tier_entry_def tier_members_def
      in_tier_def small_league_def ann_def bob_def cy_def Let_def)

text \<open>
  C2 (amended). For every list of drafted players whose winning bids all lie between 1
  and 999, the price-tier aggregator returns and the counts of the emitted tiers add up
  to the number of players.
\<close>

theorem price_tier_counts:
  assumes "\<forall>p \<in> set ps. 1 \<le> winningBid p \<and> winningBid p \<le> 999"
  shows "\<exists>out. analyze_price_tiers ps = Inr out \<and>
               sum_list (map (\<lambda>kv. t_count (snd kv)) out) = length ps"
proof -
  have "sum_list (map (\<lambda>kv. t_count (snd kv)) (map (tier_entry ps) (filter (has_member ps) tiers)))
        = length ps"
    using six_tier_count [OF assms] by (simp only: emitted_counts)
  then show ?thesis
    by (simp only: analyze_price_tiers_eq) blast
qed

theorem price_tier_counts_witness:
  "1 \<le> winningBid ann \<and> winningBid ann \<le> 999 \<and> 1 \<le> winningBid bob \<and> winningBid bob \<le> 999 \<and>
   1 \<le> winningBid cy \<and> winningBid cy \<le> 999 \<and>
   (\<exists>out. analyze_price_tiers small_league = Inr out \<and>
      map (\<lambda>kv. t_count (snd kv)) out = [1, 1, 1] \<and>
      sum_list (map (\<lambda>kv. t_count (snd kv)) out) = length small_league) \<and>
   length small_league = 3"
  using price_tier_counts [of small_league] analyze_price_tiers_league
  by (simp add: small_league_def ann_def bob_def cy_def)

text \<open>
  C2 as stated fails at a bid of 0, which is non-negative and lies in none of the six
  bands, and at a bid of 1000, which lies above the bound 999 of the last band: no tier
  is emitted for either one-player list, so the counts add up to 0.
\<close>

theorem price_tier_counts_counterexample:
  "0 \<le> winningBid zero_bid \<and> length [zero_bid] = 1 \<and>
   analyze_price_tiers [zero_bid] = Inr [] \<and>
   0 \<le> winningBid big_bid \<and> length [big_bid] = 1 \<and>
   analyze_price_tiers [big_bid] = Inr [] \<and>
   sum_list (map (\<lambda>kv. t_count (snd kv)) ([] :: (string \<times> tier_stat) list)) = 0"
  by (simp add: analyze_price_tiers_def tiers_def in_tier_def zero_bid_def big_bid_def)

lemma tier_row_float_eq:
  "bindE (tier_row_float rnd ps (sum_list (map winningBid ps)) min_p max_p) (\<lambda>row. Inr (label, row)) =
   Inr (tier_entry_float rnd ps (min_p, max_p, label))"
  by (simp add: tier_row_float_def tier_entry_float_def float_pct_def tier_members_def Let_def
      float_div_def float_mean_def list_ex_filter)

lemma analyze_price_tiers_float_eq:
  "analyze_price_tiers_float rnd ps =
     Inr (map (tier_entry_float rnd ps) (filter (has_member ps) tiers))"
proof -
  have "mapE (\<lambda>(min_p, max_p, label).
              bindE (tier_row_float rnd ps (sum_list (map winningBid ps)) min_p max_p)
                (\<lambda>row. Inr (label, row)))
          (filter (has_member ps) tiers) =
        Inr (map (tier_entry_float rnd ps) (filter (has_member ps) tiers))"
    by (rule mapE_total) (auto simp: tier_row_float_eq)
  moreover have "(\<lambda>(min_p, max_p, label). list_ex (in_tier min_p max_p) ps) = has_member ps"
    by (auto simp: has_member_def fun_eq_iff)
  ultimately show ?thesis
    by (simp add: analyze_price_tiers_float_def Let_def)
qed

lemma analyze_price_tiers_exact:
  "analyze_price_tiers_float (\<lambda>x. x) ps = analyze_price_tiers ps"
proof -
  have d: "float_div (\<lambda>x. x) = py_div"
    by (simp add: fun_eq_iff float_div_def py_div_def)
  have m: "float_mean (\<lambda>x. x) = mean"
    by (simp add: fun_eq_iff float_mean_def mean_def)
  have "tier_row_float (\<lambda>x. x) = tier_row"
    unfolding fun_eq_iff tier_row_float_def tier_row_def d m by simp
  then show ?thesis
    by (simp add: analyze_price_tiers_float_def analyze_price_tiers_def)
qed

lemma rnd_bounds:
  assumes "float_ok u rnd" "0 \<le> x"
  shows "(1 - u) * x \<le> rnd x" "rnd x \<le> (1 + u) * x"
proof -
  from assms(1) have "\<bar>rnd x - x\<bar> \<le> u * \<bar>x\<bar>" by (simp add: float_ok_def)
  with assms(2) have "\<bar>rnd x - x\<bar> \<le> u * x" by simp
  then show "(1 - u) * x \<le> rnd x" "rnd x \<le> (1 + u) * x"
    by (simp_all add: algebra_simps abs_le_iff)
qed

lemma rnd_nonneg:
  assumes "float_ok u rnd" "0 \<le> x"
  shows "0 \<le> rnd x"
proof -
  from assms have "0 \<le> (1 - u) * x" by (simp add: float_ok_def)
  with rnd_bounds(1) [OF assms] show ?thesis by linarith
qed

lemma pct_bounds:
  assumes ok: "float_ok u rnd" and q: "0 \<le> q"
  shows "(1 - u)\<^sup>2 * (q * 100) \<le> rnd (rnd q * 100)"
    and "rnd (rnd q * 100) \<le> (1 + u)\<^sup>2 * (q * 100)"
    and "0 \<le> rnd (rnd q * 100)"
proof -
  from ok have u: "0 \<le> u" "0 \<le> 1 - u" by (simp_all add: float_ok_def)
  have r: "0 \<le> rnd q" by (rule rnd_nonneg [OF ok q])
  then have y: "0 \<le> rnd q * 100" by simp
  from rnd_bounds [OF ok q] have
    lo1: "(1 - u) * q * 100 \<le> rnd q * 100" and hi1: "rnd q * 100 \<le> (1 + u) * q * 100"
    by simp_all
  from rnd_bounds [OF ok y] have
    lo2: "(1 - u) * (rnd q * 100) \<le> rnd (rnd q * 100)" and
    hi2: "rnd (rnd q * 100) \<le> (1 + u) * (rnd q * 100)" by simp_all
  have a: "(1 - u)\<^sup>2 * (q * 100) = (1 - u) * ((1 - u) * q * 100)"
    by (simp add: power2_eq_square algebra_simps)
  have b: "(1 - u) * ((1 - u) * q * 100) \<le> (1 - u) * (rnd q * 100)"
    using lo1 u(2) by (rule mult_left_mono)
  show "(1 - u)\<^sup>2 * (q * 100) \<le> rnd (rnd q * 100)"
    unfolding a by (rule order_trans [OF b lo2])
  have c: "(1 + u)\<^sup>2 * (q * 100) = (1 + u) * ((1 + u) * q * 100)"
    by (simp add: power2_eq_square algebra_simps)
  have d: "(1 + u) * (rnd q * 100) \<le> (1 + u) * ((1 + u) * q * 100)"
    using hi1 u(1) by (intro mult_left_mono) simp_all
  show "rnd (rnd q * 100) \<le> (1 + u)\<^sup>2 * (q * 100)"
    unfolding c by (rule order_trans [OF hi2 d])
  show "0 \<le> rnd (rnd q * 100)" by (rule rnd_nonneg [OF ok y])
qed


lemma float_entry_fields:
  "percentOfTotal (snd (tier_entry_float rnd ps t)) = float_pct rnd ps t"
  "t_totalSpent (snd (tier_entry_float rnd ps t)) = sum_list (map winningBid (tier_members ps t))"
  "fst (tier_entry_float rnd ps t) = snd (snd t)"
  by (simp_all add: tier_entry_float_def Let_def)

lemma tier_total_nonneg:
  assumes "\<forall>p \<in> set ps. 0 \<le> winningBid p"
  shows "0 \<le> sum_list (map winningBid (tier_members ps t))"
  using assms by (auto simp: tier_members_def intro!: sum_list_nonneg)

lemma float_pct_sum_bounds:
  assumes ok: "float_ok u rnd"
    and nn: "\<forall>p \<in> set ps. 0 \<le> winningBid p"
    and pos: "sum_list (map winningBid ps) > 0"
  shows "(1 - u)\<^sup>2 * (real_of_int (\<Sum>t\<leftarrow>ts. sum_list (map winningBid (tier_members ps t)))
                          / real_of_int (sum_list (map winningBid ps)) * 100)
           \<le> (\<Sum>t\<leftarrow>ts. float_pct rnd ps t) \<and>
         (\<Sum>t\<leftarrow>ts. float_pct rnd ps t)
           \<le> (1 + u)\<^sup>2 * (real_of_int (\<Sum>t\<leftarrow>ts. sum_list (map winningBid (tier_members ps t)))
                             / real_of_int (sum_list (map winningBid ps)) * 100)"
proof (induction ts)
  case Nil
  show ?case by simp
next
  case (Cons t ts)
  let ?T = "real_of_int (sum_list (map winningBid ps))"
  let ?q = "real_of_int (sum_list (map winningBid (tier_members ps t))) / ?T"
  have q: "0 \<le> ?q"
    using tier_total_nonneg [OF nn, of t] pos by simp
  have p: "float_pct rnd ps t = rnd (rnd ?q * 100)"
    using pos by (simp add: float_pct_def)
  from pct_bounds(1,2) [OF ok q] p have
    "(1 - u)\<^sup>2 * (?q * 100) \<le> float_pct rnd ps t" "float_pct rnd ps t \<le> (1 + u)\<^sup>2 * (?q * 100)"
    by simp_all
  with Cons.IH show ?case
    by (simp add: add_divide_distrib distrib_left distrib_right)
qed

lemma float_pct_nonneg:
  assumes ok: "float_ok u rnd"
    and nn: "\<forall>p \<in> set ps. 0 \<le> winningBid p"
  shows "0 \<le> float_pct rnd ps t"
proof (cases "sum_list (map winningBid ps) > 0")
  case True
  then have "0 \<le> real_of_int (sum_list (map winningBid (tier_members ps t)))
                  / real_of_int (sum_list (map winningBid ps))"
    using tier_total_nonneg [OF nn, of t] by simp
  from pct_bounds(3) [OF ok this] True show ?thesis by (simp add: float_pct_def)
next
  case False
  then show ?thesis by (simp add: float_pct_def)
qed

lemma py_sum_fold_bounds:
  assumes ok: "float_ok u rnd"
  shows "0 \<le> a \<Longrightarrow> \<forall>x \<in> set xs. 0 \<le> x \<Longrightarrow>
         (1 - u) ^ length xs * (a + sum_list xs) \<le> fold (\<lambda>x acc. rnd (acc + x)) xs a \<and>
         fold (\<lambda>x acc. rnd (acc + x)) xs a \<le> (1 + u) ^ length xs * (a + sum_list xs)"
proof (induction xs arbitrary: a)
  case Nil
  then show ?case by simp
next
  case (Cons x xs)
  from ok have u: "0 \<le> u" "0 \<le> 1 - u" "1 - u \<le> 1" by (simp_all add: float_ok_def)
  from Cons.prems have ax: "0 \<le> a + x" and xs: "\<forall>y \<in> set xs. 0 \<le> y" by simp_all
  have s: "0 \<le> sum_list xs" using xs by (simp add: sum_list_nonneg)
  have r: "0 \<le> rnd (a + x)" by (rule rnd_nonneg [OF ok ax])
  from Cons.IH [OF r xs] have
    lo: "(1 - u) ^ length xs * (rnd (a + x) + sum_list xs) \<le> fold (\<lambda>x acc. rnd (acc + x)) xs (rnd (a + x))"
    and hi: "fold (\<lambda>x acc. rnd (acc + x)) xs (rnd (a + x)) \<le> (1 + u) ^ length xs * (rnd (a + x) + sum_list xs)"
    by simp_all
  have pl: "0 \<le> (1 - u) ^ length xs" and ph: "0 \<le> (1 + u) ^ length xs"
    using u by simp_all
  have "(1 - u) * (a + x + sum_list xs) \<le> (1 - u) * (a + x) + sum_list xs"
    using s u by (simp add: algebra_simps mult_left_le_one_le)
  also have "\<dots> \<le> rnd (a + x) + sum_list xs"
    using rnd_bounds(1) [OF ok ax] by simp
  finally have "(1 - u) ^ length xs * ((1 - u) * (a + x + sum_list xs))
                  \<le> (1 - u) ^ length xs * (rnd (a + x) + sum_list xs)"
    using pl by (rule mult_left_mono)
  with lo have L: "(1 - u) ^ length (x # xs) * (a + sum_list (x # xs))
                     \<le> fold (\<lambda>x acc. rnd (acc + x)) (x # xs) a"
    by (simp add: mult.assoc add.assoc mult.left_commute)
  have "rnd (a + x) + sum_list xs \<le> (1 + u) * (a + x) + sum_list xs"
    using rnd_bounds(2) [OF ok ax] by simp
  also have "\<dots> \<le> (1 + u) * (a + x + sum_list xs)"
    using s u by (simp add: algebra_simps)
  finally have "(1 + u) ^ length xs * (rnd (a + x) + sum_list xs)
                  \<le> (1 + u) ^ length xs * ((1 + u) * (a + x + sum_list xs))"
    using ph by (rule mult_left_mono)
  with hi have H: "fold (\<lambda>x acc. rnd (acc + x)) (x # xs) a
                     \<le> (1 + u) ^ length (x # xs) * (a + sum_list (x # xs))"
    by (simp add: mult.assoc add.assoc mult.left_commute)
  from L H show ?case by blast
qed


lemma emitted_float_pct:
  "map (\<lambda>kv. percentOfTotal (snd kv)) (map (tier_entry_float rnd ps) ts) = map (float_pct rnd ps) ts"
  by (simp add: float_entry_fields)

lemma emitted_total_all:
  assumes "\<forall>p \<in> set ps. 0 \<le> winningBid p \<and> winningBid p \<le> 999"
  shows "(\<Sum>t\<leftarrow>filter (has_member ps) tiers. sum_list (map winningBid (tier_members ps t)))
         = sum_list (map winningBid ps)"
proof -
  have "(\<Sum>t\<leftarrow>filter (has_member ps) tiers. sum_list (map winningBid (tier_members ps t))) =
        (\<Sum>t\<leftarrow>tiers. sum_list (map winningBid (tier_members ps t)))"
    by (rule sum_list_filter_zero) (simp add: no_member_empty)
  with six_tier_total [OF assms] show ?thesis by simp
qed

lemma float_ok_round_down: "float_ok (1 / 2 ^ 53) round_down"
proof -
  have "\<bar>round_down x - x\<bar> = 1 / 2 ^ 53 * \<bar>x\<bar>" for x
  proof -
    have "round_down x - x = - (1 / 2 ^ 53 * x)"
      by (simp add: round_down_def algebra_simps)
    then show ?thesis by (simp add: abs_mult)
  qed
  then show ?thesis by (simp add: float_ok_def)
qed

text \<open>
  C3 (amended). The price-tier aggregator returns; each emitted tier's
  \<open>percentOfTotal\<close> is the rounded quotient of its total spend by the set's total spend,
  times 100 and rounded, or 0 when the set's total is not positive. When all bids lie
  between 0 and 999 and the set's total spend is positive, the percentages of the emitted
  tiers add up to 100 within floating-point tolerance: for a rounding of relative error
  at most \<open>u\<close>, their exact sum lies between \<open>100 (1 - u)\<^sup>2\<close> and \<open>100 (1 + u)\<^sup>2\<close>, and
  their sum by rounded additions from left to right between \<open>100 (1 - u)\<^sup>8\<close> and
  \<open>100 (1 + u)\<^sup>8\<close>.
\<close>

theorem price_tier_percent_tolerance:
  "\<exists>out. analyze_price_tiers_float rnd ps = Inr out \<and>
     (\<forall>(label, st) \<in> set out.
        percentOfTotal st =
          (if sum_list (map winningBid ps) > 0
           then rnd (rnd (real_of_int (t_totalSpent st)
                          / real_of_int (sum_list (map winningBid ps))) * 100)
           else 0)) \<and>
     (float_ok u rnd \<and> (\<forall>p \<in> set ps. 0 \<le> winningBid p \<and> winningBid p \<le> 999) \<and>
      sum_list (map winningBid ps) > 0 \<longrightarrow>
        100 * (1 - u)\<^sup>2 \<le> sum_list (map (\<lambda>kv. percentOfTotal (snd kv)) out) \<and>
        sum_list (map (\<lambda>kv. percentOfTotal (snd kv)) out) \<le> 100 * (1 + u)\<^sup>2 \<and>
        100 * (1 - u) ^ 8 \<le> py_sum rnd (map (\<lambda>kv. percentOfTotal (snd kv)) out) \<and>
        py_sum rnd (map (\<lambda>kv. percentOfTotal (snd kv)) out) \<le> 100 * (1 + u) ^ 8)"
proof -
  let ?ts = "filter (has_member ps) tiers"
  let ?out = "map (tier_entry_float rnd ps) ?ts"
  let ?pcts = "map (\<lambda>kv. percentOfTotal (snd kv)) ?out"
  have formula: "percentOfTotal st =
          (if sum_list (map winningBid ps) > 0
           then rnd (rnd (real_of_int (t_totalSpent st)
                          / real_of_int (sum_list (map winningBid ps))) * 100)
           else 0)"
    if "(label, st) \<in> set ?out" for label st
    using that by (auto simp: tier_entry_float_def float_pct_def Let_def)
  have bounds:
    "100 * (1 - u)\<^sup>2 \<le> sum_list ?pcts \<and> sum_list ?pcts \<le> 100 * (1 + u)\<^sup>2 \<and>
     100 * (1 - u) ^ 8 \<le> py_sum rnd ?pcts \<and> py_sum rnd ?pcts \<le> 100 * (1 + u) ^ 8"
    if ok: "float_ok u rnd"
      and range: "\<forall>p \<in> set ps. 0 \<le> winningBid p \<and> winningBid p \<le> 999"
      and pos: "sum_list (map winningBid ps) > 0"
  proof -
    from ok have u: "0 \<le> u" "0 \<le> 1 - u" "1 - u \<le> 1" "1 \<le> 1 + u"
      by (simp_all add: float_ok_def)
    from range have nn: "\<forall>p \<in> set ps. 0 \<le> winningBid p" by simp
    have p: "?pcts = map (float_pct rnd ps) ?ts" by (rule emitted_float_pct)
    have hundred: "real_of_int (\<Sum>t\<leftarrow>?ts. sum_list (map winningBid (tier_members ps t)))
                   / real_of_int (sum_list (map winningBid ps)) * 100 = 100"
      using pos by (simp add: emitted_total_all [OF range])
    from float_pct_sum_bounds [OF ok nn pos, of ?ts]
    have lo: "(1 - u)\<^sup>2 * 100 \<le> sum_list ?pcts" and hi: "sum_list ?pcts \<le> (1 + u)\<^sup>2 * 100"
      unfolding hundred p by simp_all
    have n: "length ?pcts + 2 \<le> 8"
    proof -
      have "length ?ts \<le> length tiers" by (rule length_filter_le)
      then show ?thesis by (simp add: tiers_def)
    qed
    have all: "\<forall>x \<in> set ?pcts. 0 \<le> x"
      unfolding p using float_pct_nonneg [OF ok nn] by simp
    from py_sum_fold_bounds [OF ok _ all, of 0]
    have flo: "(1 - u) ^ length ?pcts * sum_list ?pcts \<le> py_sum rnd ?pcts"
      and fhi: "py_sum rnd ?pcts \<le> (1 + u) ^ length ?pcts * sum_list ?pcts"
      by (simp_all add: py_sum_def)
    have "(1 - u) ^ 8 \<le> (1 - u) ^ (length ?pcts + 2)"
      using n u by (intro power_decreasing) simp_all
    then have "(1 - u) ^ 8 * 100 \<le> (1 - u) ^ (length ?pcts + 2) * 100"
      by (rule mult_right_mono) simp
    also have "\<dots> = (1 - u) ^ length ?pcts * ((1 - u)\<^sup>2 * 100)"
      by (simp only: power_add mult.assoc)
    also have "\<dots> \<le> (1 - u) ^ length ?pcts * sum_list ?pcts"
      using lo u by (intro mult_left_mono) simp_all
    finally have L: "(1 - u) ^ 8 * 100 \<le> py_sum rnd ?pcts"
      using flo by linarith
    have "(1 + u) ^ length ?pcts * sum_list ?pcts \<le> (1 + u) ^ length ?pcts * ((1 + u)\<^sup>2 * 100)"
      using hi u by (intro mult_left_mono) simp_all
    also have "\<dots> = (1 + u) ^ (length ?pcts + 2) * 100"
      by (simp only: power_add mult.assoc)
    also have "\<dots> \<le> (1 + u) ^ 8 * 100"
      using n u by (intro mult_right_mono power_increasing) simp_all
    finally have H: "py_sum rnd ?pcts \<le> (1 + u) ^ 8 * 100"
      using fhi by linarith
    from lo hi L H show ?thesis by (simp add: mult.commute)
  qed
  from formula bounds show ?thesis
    by (simp only: analyze_price_tiers_float_eq) blast
qed

lemma float_tiers_small_league:
  "analyze_price_tiers_float round_down small_league =
     Inr [(''Filler ($1-$5)'',
           \<lparr>minPrice = 1, maxPrice = Some 5, t_count = 1, t_totalSpent = 5,
            percentOfTotal = round_down (round_down (1 / 7) * 100), t_avgBid = round_down 5\<rparr>),
          (''Value ($6-$10)'',
           \<lparr>minPrice = 6, maxPrice = Some 10, t_count = 1, t_totalSpent = 10,
            percentOfTotal = round_down (round_down (2 / 7) * 100), t_avgBid = round_down 10\<rparr>),
          (''Quality ($16-$20)'',
           \<lparr>minPrice = 16, maxPrice = Some 20, t_count = 1, t_totalSpent = 20,
            percentOfTotal = round_down (round_down (4 / 7) * 100), t_avgBid = round_down 20\<rparr>)]"
  by (simp add: analyze_price_tiers_float_eq tiers_def has_member_def tier_entry_float_def
      float_pct_def tier_members_def in_tier_def small_league_def ann_def bob_def cy_def Let_def)

theorem price_tier_percent_tolerance_witness:
  "float_ok (1 / 2 ^ 53) round_down \<and>
   0 \<le> winningBid ann \<and> winningBid ann \<le> 999 \<and> 0 \<le> winningBid bob \<and> winningBid bob \<le> 999 \<and>
   0 \<le> winningBid cy \<and> winningBid cy \<le> 999 \<and> sum_list (map winningBid small_league) = 35 \<and>
   (\<exists>out. analyze_price_tiers_float round_down small_league = Inr out \<and>
      map (\<lambda>kv. percentOfTotal (snd kv)) out =
        [round_down (round_down (1 / 7) * 100), round_down (round_down (2 / 7) * 100),
         round_down (round_down (4 / 7) * 100)] \<and>
      sum_list (map (\<lambda>kv. percentOfTotal (snd kv)) out) = 100 * (1 - 1 / 2 ^ 53)\<^sup>2 \<and>
      100 * (1 - 1 / 2 ^ 53)\<^sup>2 \<le> sum_list (map (\<lambda>kv. percentOfTotal (snd kv)) out) \<and>
      sum_list (map (\<lambda>kv. percentOfTotal (snd kv)) out) \<le> 100 * (1 + 1 / 2 ^ 53)\<^sup>2 \<and>
      100 * (1 - 1 / 2 ^ 53) ^ 8 \<le> py_sum round_down (map (\<lambda>kv. percentOfTotal (snd kv)) out) \<and>
      py_sum round_down (map (\<lambda>kv. percentOfTotal (snd kv)) out) \<le> 100 * (1 + 1 / 2 ^ 53) ^ 8)"
proof -
  have s: "sum_list (map winningBid small_league) = 35"
    by (simp add: small_league_def ann_def bob_def cy_def)
  have r: "\<forall>p \<in> set small_league. 0 \<le> winningBid p \<and> winningBid p \<le> 999"
    by (simp add: small_league_def ann_def bob_def cy_def)
  have e: "round_down (round_down (1 / 7) * 100) + (round_down (round_down (2 / 7) * 100)
             + round_down (round_down (4 / 7) * 100)) = 100 * (1 - 1 / 2 ^ 53)\<^sup>2"
    by (simp add: round_down_def power2_eq_square algebra_simps)
  from price_tier_percent_tolerance [of round_down small_league "1 / 2 ^ 53"]
    float_ok_round_down r s float_tiers_small_league e
  show ?thesis
    by (simp add: ann_def bob_def cy_def)
qed

text \<open>
  C3 as stated fails for the non-empty list that holds one player with a bid of 0, and
  for the one that holds one player with a bid of 1000: whatever the rounding, no tier
  is emitted, so the percentages add up to 0.
\<close>

theorem price_tier_percent_counterexample:
  "[zero_bid] \<noteq> [] \<and> (\<forall>rnd. analyze_price_tiers_float rnd [zero_bid] = Inr []) \<and>
   [big_bid] \<noteq> [] \<and> (\<forall>rnd. analyze_price_tiers_float rnd [big_bid] = Inr []) \<and>
   sum_list (map (\<lambda>kv. percentOfTotal (snd kv)) ([] :: (string \<times> tier_stat) list)) = 0 \<and>
   (\<forall>rnd. py_sum rnd (map (\<lambda>kv. percentOfTotal (snd kv)) ([] :: (string \<times> tier_stat) list)) = 0)"
  by (simp add: analyze_price_tiers_float_def tiers_def in_tier_def zero_bid_def big_bid_def
      py_sum_def)

text \<open>
  C6. The price-tier aggregator returns, and the label of a tier that contains no player
  is not a key of its output; in particular, without a player priced 31 or above the
  key \<open>Elite ($31+)\<close> is absent.
\<close>

theorem price_tier_omitted:
  "\<exists>out. analyze_price_tiers ps = Inr out \<and>
     (\<forall>(min_p, max_p, label) \<in> set tiers.
        filter (in_tier min_p max_p) ps = [] \<longrightarrow> label \<notin> fst ` set out) \<and>
     ((\<forall>p \<in> set ps. winningBid p < 31) \<longrightarrow> ''Elite ($31+)'' \<notin> fst ` set out)"
proof -
  let ?out = "map (tier_entry ps) (filter (has_member ps) tiers)"
  have keys: "fst ` set ?out = (\<lambda>t. snd (snd t)) ` set (filter (has_member ps) tiers)"
    by (simp add: image_image tier_entry_fields)
  have absent: "snd (snd t) \<notin> fst ` set ?out" if "t \<in> set tiers" "tier_members ps t = []" for t
  proof -
    from that(2) have "\<not> has_member ps t"
      by (simp add: has_member_def tier_members_def list_ex_filter)
    with label_absent [OF tiers_labels_distinct that(1)] show ?thesis
      by (simp only: keys) 
  qed
  have a: "\<forall>(min_p, max_p, label) \<in> set tiers.
        filter (in_tier min_p max_p) ps = [] \<longrightarrow> label \<notin> fst ` set ?out"
  proof (rule ballI)
    fix t assume t: "t \<in> set tiers"
    obtain lo hi l where [simp]: "t = (lo, hi, l)" by (cases t)
    show "case t of (min_p, max_p, label) \<Rightarrow>
            filter (in_tier min_p max_p) ps = [] \<longrightarrow> label \<notin> fst ` set ?out"
      using absent [OF t] by (simp add: tier_members_def del: set_map)
  qed
  have "''Elite ($31+)'' \<notin> fst ` set ?out" if "\<forall>p \<in> set ps. winningBid p < 31"
  proof -
    have m: "(31, 999, ''Elite ($31+)'') \<in> set tiers" by (simp add: tiers_def)
    have e: "tier_members ps (31, 999, ''Elite ($31+)'') = []"
      using that by (auto simp: tier_members_def in_tier_def filter_empty_conv)
    from absent [OF m e] show ?thesis unfolding snd_conv .
  qed
  with a show ?thesis by (simp only: analyze_price_tiers_eq) blast
qed


theorem price_tier_omitted_witness:
  "(31, 999, ''Elite ($31+)'') \<in> set tiers \<and> filter (in_tier 31 999) small_league = [] \<and>
   winningBid ann < 31 \<and> winningBid bob < 31 \<and> winningBid cy < 31 \<and>
   (\<exists>out. analyze_price_tiers small_league = Inr out \<and>
      map fst out = [''Filler ($1-$5)'', ''Value ($6-$10)'', ''Quality ($16-$20)''] \<and>
      ''Elite ($31+)'' \<notin> fst ` set out)"
  using price_tier_omitted [of small_league] analyze_price_tiers_league
  by (simp add: small_league_def ann_def bob_def cy_def tiers_def in_tier_def)

section \<open>Comparator\<close>

lemma compare_row_eq:
  "compare_row d l =
     Inr \<lparr>dukeAvg = d, leagueAvg = l, difference = d - l,
          percentDiff = (if l > 0 then (d - l) / l * 100 else 0),
          cmp_interpretation = (if d > l then ''overpaid'' else ''value'')\<rparr>"
  by (simp add: compare_row_def py_div_def)

lemma set_update_subset: "set (AList.update k v al) \<subseteq> insert (k, v) (set al)"
  by (induction al) auto

lemma compare_loop_inv:
  assumes "compare_loop lg rest acc = Inr cmp"
    and "\<forall>kv \<in> set acc. row_ok lg bd kv"
    and "set rest \<subseteq> set bd"
  shows "\<forall>kv \<in> set cmp. row_ok lg bd kv"
  using assms
proof (induction lg rest acc rule: compare_loop.induct)
  case (1 lg comparison)
  then show ?case by simp
next
  case (2 lg pos duke_data rest comparison)
  show ?case
  proof (cases "map_of lg pos")
    case None
    with 2 show ?thesis by simp
  next
    case (Some l)
    let ?row = "\<lparr>dukeAvg = bd_avgBid duke_data, leagueAvg = ps_avgBid l,
          difference = bd_avgBid duke_data - ps_avgBid l,
          percentDiff = (if ps_avgBid l > 0 then (bd_avgBid duke_data - ps_avgBid l) / ps_avgBid l * 100 else 0),
          cmp_interpretation = (if bd_avgBid duke_data > ps_avgBid l then ''overpaid'' else ''value'')\<rparr>"
    have r: "compare_row (bd_avgBid duke_data) (ps_avgBid l) = Inr ?row"
      by (rule compare_row_eq)
    have ok: "row_ok lg bd (pos, ?row)"
      using "2.prems"(3) Some by (auto simp: row_ok_def)
    have a: "\<forall>kv \<in> set (AList.update pos ?row comparison). row_ok lg bd kv"
      using set_update_subset [of pos ?row comparison] ok "2.prems"(2) by auto
    have b: "compare_loop lg rest (AList.update pos ?row comparison) = Inr cmp"
      using "2.prems"(1) Some r by simp
    have c: "set rest \<subseteq> set bd"
      using "2.prems"(3) by simp
    show ?thesis
      by (rule "2.IH"(2) [OF Some b a c])
  qed
qed


lemma map_of_group_step:
  "map_of (group_step p m) k =
     (case map_of m k of
        None \<Rightarrow> if occ_players k p = [] then None else Some (occ_players k p)
      | Some l \<Rightarrow> Some (l @ occ_players k p))"
proof -
  have "map_of (fold (\<lambda>pos acc. dd_modify pos [] (\<lambda>l. l @ [p]) acc) poss m) k =
     (let n = map (\<lambda>_. p) (filter (\<lambda>q. q = k) poss) in
      case map_of m k of
        None \<Rightarrow> if n = [] then None else Some n
      | Some l \<Rightarrow> Some (l @ n))" for poss
    by (induction poss arbitrary: m) (simp_all add: map_of_dd_modify Let_def split: option.splits)
  then show ?thesis
    by (simp add: group_step_def occ_players_def Let_def split: option.splits)
qed

lemma group_fold_lookup:
  "map_of (fold group_step ps m) k =
     (let qs = concat (map (occ_players k) ps) in
      case map_of m k of
        None \<Rightarrow> if qs = [] then None else Some qs
      | Some l \<Rightarrow> Some (l @ qs))"
proof (induction ps arbitrary: m)
  case Nil
  show ?case by (simp split: option.splits)
next
  case (Cons p ps)
  show ?case
    by (simp add: Cons.IH map_of_group_step Let_def split: option.splits)
qed

lemma group_step_distinct:
  "distinct (map fst m) \<Longrightarrow> distinct (map fst (group_step p m))"
proof -
  have "distinct (map fst m) \<Longrightarrow>
        distinct (map fst (fold (\<lambda>pos acc. dd_modify pos [] (\<lambda>l. l @ [p]) acc) poss m))" for poss
    by (induction poss arbitrary: m) (simp_all add: distinct_dd_modify)
  then show "distinct (map fst m) \<Longrightarrow> distinct (map fst (group_step p m))"
    by (simp add: group_step_def)
qed

lemma group_fold_distinct:
  "distinct (map fst m) \<Longrightarrow> distinct (map fst (fold group_step ps m))"
  by (induction ps arbitrary: m) (simp_all add: group_step_distinct)

lemma group_by_position_entry:
  assumes "(k, qs) \<in> set (group_by_position ps)"
  shows "qs = concat (map (occ_players k) ps) \<and> qs \<noteq> []"
proof -
  have "distinct (map fst (group_by_position ps))"
    by (simp add: group_by_position_def group_fold_distinct)
  with assms have "map_of (group_by_position ps) k = Some qs" by simp
  then show ?thesis
    by (auto simp add: group_by_position_def group_fold_lookup Let_def split: if_splits)
qed

lemma bids_occ_players: "map winningBid (concat (map (occ_players k) ps)) = concat (map (occ_bids k) ps)"
  by (induction ps) (simp_all add: occ_players_def occ_bids_def)

lemma mapE_Inr_D:
  assumes "mapE f xs = Inr ys" "y \<in> set ys"
  shows "\<exists>x \<in> set xs. f x = Inr y"
  using assms
proof (induction xs arbitrary: ys)
  case Nil
  then show ?case by simp
next
  case (Cons x xs)
  then show ?case
    by (auto simp: bindE_def split: sum.splits)
qed

lemma breakdown_row_avg:
  assumes "breakdown_row qs = Inr row"
  shows "bd_avgBid row = avg (map winningBid qs)"
  using assms
  by (auto simp: breakdown_row_def mean_def avg_def bindE_def split: sum.splits if_splits)

lemma duke_breakdown_entry:
  assumes "duke_position_breakdown duke = Inr bd" "(pos, d) \<in> set bd"
  shows "bd_avgBid d = avg (concat (map (occ_bids pos) duke))"
proof -
  from mapE_Inr_D [OF assms [unfolded duke_position_breakdown_def]]
  obtain qs where qs: "(pos, qs) \<in> set (group_by_position duke)" "breakdown_row qs = Inr d"
    by (auto simp: bindE_def split: sum.splits)
  from group_by_position_entry [OF qs(1)] breakdown_row_avg [OF qs(2)]
  show ?thesis by (simp add: bids_occ_players)
qed

lemma league_entry:
  assumes "analyze_positions all_players = Inr lg" "map_of lg pos = Some l"
  shows "ps_avgBid l = avg (concat (map (occ_bids pos) all_players))"
proof -
  from assms(2) have "(pos, l) \<in> set lg" by (rule map_of_SomeD)
  from analyze_positions_entry [OF assms(1) this] show ?thesis
    by (simp add: stat_of_def avg_def)
qed

lemma compare_small_league:
  "compare_duke_to_league [ann, cy] small_league =
     Inr [(''OF'', \<lparr>dukeAvg = 15, leagueAvg = 35 / 3, difference = 10 / 3, percentDiff = 200 / 7,
                    cmp_interpretation = ''overpaid''\<rparr>),
          (''1B'', \<lparr>dukeAvg = 20, leagueAvg = 20, difference = 0, percentDiff = 0,
                    cmp_interpretation = ''value''\<rparr>)]"
  by (simp add: compare_duke_to_league_def analyze_positions_league duke_position_breakdown_def
      group_by_position_def group_step_def dd_modify_def get_positions_def breakdown_row_def
      mean_def get_key_def compare_row_eq ann_def cy_def)

text \<open>
  C4. For every position in the comparator's output, \<open>dukeAvg\<close> and \<open>leagueAvg\<close> are the
  mean bids of the target team and of the league at that position, and the label is
  \<open>overpaid\<close> exactly when \<open>dukeAvg\<close> is strictly greater than \<open>leagueAvg\<close> and \<open>value\<close>
  otherwise; with equal means the label is \<open>value\<close>.
\<close>

theorem compare_interpretation:
  assumes "compare_duke_to_league duke_players all_players = Inr cmp"
  shows "\<forall>(pos, row) \<in> set cmp.
           dukeAvg row = avg (concat (map (occ_bids pos) duke_players)) \<and>
           leagueAvg row = avg (concat (map (occ_bids pos) all_players)) \<and>
           (cmp_interpretation row = ''overpaid'' \<longleftrightarrow> dukeAvg row > leagueAvg row) \<and>
           (cmp_interpretation row = ''value'' \<longleftrightarrow> \<not> dukeAvg row > leagueAvg row) \<and>
           (dukeAvg row = leagueAvg row \<longrightarrow> cmp_interpretation row = ''value'')"
proof -
  from assms obtain lg bd where
    lg: "analyze_positions all_players = Inr lg" and
    bd: "duke_position_breakdown duke_players = Inr bd" and
    loop: "compare_loop lg bd [] = Inr cmp"
    by (auto simp: compare_duke_to_league_def bindE_def split: sum.splits)
  have inv: "\<forall>kv \<in> set cmp. row_ok lg bd kv"
    by (rule compare_loop_inv [OF loop]) simp_all
  show ?thesis
  proof (clarify)
    fix pos row assume "(pos, row) \<in> set cmp"
    with inv have "row_ok lg bd (pos, row)" by blast
    then obtain d l where dl: "(pos, d) \<in> set bd" "map_of lg pos = Some l"
      "dukeAvg row = bd_avgBid d" "leagueAvg row = ps_avgBid l"
      "cmp_interpretation row = (if dukeAvg row > leagueAvg row then ''overpaid'' else ''value'')"
      by (auto simp: row_ok_def)
    from dl(3) duke_breakdown_entry [OF bd dl(1)]
    have 1: "dukeAvg row = avg (concat (map (occ_bids pos) duke_players))" by simp
    from dl(4) league_entry [OF lg dl(2)]
    have 2: "leagueAvg row = avg (concat (map (occ_bids pos) all_players))" by simp
    from dl(5) have 3: "cmp_interpretation row = ''overpaid'' \<longleftrightarrow> dukeAvg row > leagueAvg row"
      by simp
    from dl(5) have 4: "cmp_interpretation row = ''value'' \<longleftrightarrow> \<not> dukeAvg row > leagueAvg row"
      by simp
    from 1 2 3 4
    show "dukeAvg row = avg (concat (map (occ_bids pos) duke_players)) \<and>
           leagueAvg row = avg (concat (map (occ_bids pos) all_players)) \<and>
           (cmp_interpretation row = ''overpaid'' \<longleftrightarrow> dukeAvg row > leagueAvg row) \<and>
           (cmp_interpretation row = ''value'' \<longleftrightarrow> \<not> dukeAvg row > leagueAvg row) \<and>
           (dukeAvg row = leagueAvg row \<longrightarrow> cmp_interpretation row = ''value'')"
      by simp
  qed
qed

theorem compare_interpretation_witness:
  "compare_duke_to_league [ann, cy] small_league =
     Inr [(''OF'', \<lparr>dukeAvg = 15, leagueAvg = 35 / 3, difference = 10 / 3, percentDiff = 200 / 7,
                    cmp_interpretation = ''overpaid''\<rparr>),
          (''1B'', \<lparr>dukeAvg = 20, leagueAvg = 20, difference = 0, percentDiff = 0,
                    cmp_interpretation = ''value''\<rparr>)] \<and>
   avg (concat (map (occ_bids ''OF'') [ann, cy])) = 15 \<and>
   avg (concat (map (occ_bids ''OF'') small_league)) = 35 / 3 \<and>
   avg (concat (map (occ_bids ''1B'') [ann, cy])) = avg (concat (map (occ_bids ''1B'') small_league))"
  using compare_interpretation [OF compare_small_league] compare_small_league
  by (simp add: avg_def occ_bids_def get_positions_def small_league_def ann_def bob_def cy_def)

section \<open>Insight generator and report assembler\<close>

lemma extract_small: "extract_players small_auction = (small_league, [ann, cy])"
  by (simp add: extract_players_def small_auction_def raw_of_def drafted_def List.map_filter_def
      small_league_def ann_def bob_def cy_def)

lemma teams_small:
  "analyze_teams small_league =
     [(''Duke'', \<lparr>tb_players = [ann, cy], tb_total = 30\<rparr>),
      (''Unknown'', \<lparr>tb_players = [bob], tb_total = 5\<rparr>)]"
  by (simp add: small_league_def ann_def bob_def cy_def analyze_teams_def team_step_def dd_modify_def
      team_key_def add_to_team_def)


lemma inflation_at_out: "length xs \<le> i \<Longrightarrow> inflation_at xs i = Inl IndexError"
  by (simp add: inflation_at_def get_item_def)

lemma inflation_at_in: "i < length xs \<Longrightarrow> inflation_at xs i = get_key (avgInflationRate (xs ! i))"
  by (simp add: inflation_at_def get_item_def)

lemma get_key_cases: "get_key v = Inl KeyError \<or> (\<exists>a. v = Some a \<and> get_key v = Inr a)"
  by (cases v) (simp_all add: get_key_def)

lemma generate_insights_zero_division:
  assumes "duke_players = [] \<or> all_players = [] \<or> teams = []"
  shows "generate_insights duke_players all_players teams hist = Inl ZeroDivisionError"
  using assms by (auto simp: generate_insights_def Let_def py_div_def)

text \<open>With non-empty sets the divisions succeed and only the three lookups remain.\<close>

lemma generate_insights_lookups:
  assumes "duke_players \<noteq> []" "all_players \<noteq> []" "teams \<noteq> []"
  shows "\<exists>f. generate_insights duke_players all_players teams hist =
           bindE (inflation_at (aggregateTierInflation hist) 0) (\<lambda>t1.
           bindE (inflation_at (aggregatePriceRangeInflation hist) 3) (\<lambda>r3.
           bindE (inflation_at (aggregatePriceRangeInflation hist) 0) (\<lambda>r0. Inr (f t1 r3 r0))))"
proof -
  obtain f :: "real \<Rightarrow> real \<Rightarrow> real \<Rightarrow> insight list" where
    "generate_insights duke_players all_players teams hist =
           bindE (inflation_at (aggregateTierInflation hist) 0) (\<lambda>t1.
           bindE (inflation_at (aggregatePriceRangeInflation hist) 3) (\<lambda>r3.
           bindE (inflation_at (aggregatePriceRangeInflation hist) 0) (\<lambda>r0. Inr (f t1 r3 r0))))"
    using assms by (simp add: generate_insights_def Let_def py_div_def)
  then show ?thesis by blast
qed


lemma lookups_short:
  assumes "xs = [] \<or> length ys < 4"
  shows "\<exists>e. e \<in> {IndexError, KeyError} \<and>
           bindE (inflation_at xs 0) (\<lambda>t1.
           bindE (inflation_at ys 3) (\<lambda>r3.
           bindE (inflation_at ys 0) (\<lambda>r0. Inr (f t1 r3 r0)))) = Inl e"
proof (cases "xs = []")
  case True
  then show ?thesis by (simp add: inflation_at_out)
next
  case False
  with assms have ys: "length ys \<le> 3" by simp
  from False have "inflation_at xs 0 = get_key (avgInflationRate (xs ! 0))"
    by (simp add: inflation_at_in)
  with get_key_cases [of "avgInflationRate (xs ! 0)"] ys show ?thesis
    by (auto simp: inflation_at_out)
qed

lemma lookups_present:
  assumes "xs \<noteq> []" "4 \<le> length ys"
  shows "bindE (inflation_at xs 0) (\<lambda>t1.
           bindE (inflation_at ys 3) (\<lambda>r3.
           bindE (inflation_at ys 0) (\<lambda>r0. Inr (f t1 r3 r0)))) \<noteq> Inl IndexError"
proof -
  from assms(2) have ys: "0 < length ys" "3 < length ys" by linarith+
  from assms(1) have xs: "0 < length xs" by simp
  have "inflation_at xs 0 = get_key (avgInflationRate (xs ! 0))"
    "inflation_at ys 3 = get_key (avgInflationRate (ys ! 3))"
    "inflation_at ys 0 = get_key (avgInflationRate (ys ! 0))"
    by (simp_all only: inflation_at_in [OF xs] inflation_at_in [OF ys(1)] inflation_at_in [OF ys(2)])
  then show ?thesis
    by (simp add: get_key_def bindE_def split: option.splits)
qed

lemma lookups_ok:
  assumes "xs \<noteq> []" "4 \<le> length ys" "avgInflationRate (xs ! 0) = Some a"
    "avgInflationRate (ys ! 3) = Some b" "avgInflationRate (ys ! 0) = Some c"
  shows "bindE (inflation_at xs 0) (\<lambda>t1.
           bindE (inflation_at ys 3) (\<lambda>r3.
           bindE (inflation_at ys 0) (\<lambda>r0. Inr (f t1 r3 r0)))) = Inr (f a b c)"
proof -
  from assms(2) have ys: "0 < length ys" "3 < length ys" by linarith+
  from assms(1) have xs: "0 < length xs" by simp
  have "inflation_at xs 0 = Inr a" "inflation_at ys 3 = Inr b" "inflation_at ys 0 = Inr c"
    using assms(3-5)
    by (simp_all only: inflation_at_in [OF xs] inflation_at_in [OF ys(1)] inflation_at_in [OF ys(2)]
        get_key_def option.case)
  then show ?thesis by simp
qed

lemma create_analysis_needs_insights:
  assumes "extract_players auction = (all_players, duke_players)"
    and "generate_insights duke_players all_players (analyze_teams all_players) hist = Inl e"
  shows "\<exists>e'. create_analysis auction hist = Inl e'"
  using assms by (simp add: create_analysis_def Let_def bindE_def split: sum.splits)

text \<open>
  What the three unguarded lookups do. When the tier array is empty or there are fewer
  than four price-range buckets, insight generation and the report assembly fail; the
  failure is an index or key error whenever the player sets and the team map are
  non-empty, that is, whenever the divisions that precede the lookups succeed. When the
  indices are present, insight generation never fails with an index error, and it
  returns when the three entries also carry \<open>avgInflationRate\<close> and the sets are non-empty.
\<close>

lemma historical_lookups_behaviour:
  "(aggregateTierInflation hist = [] \<or> length (aggregatePriceRangeInflation hist) < 4 \<longrightarrow>
      (\<exists>e. generate_insights duke_players all_players teams hist = Inl e) \<and>
      (duke_players \<noteq> [] \<and> all_players \<noteq> [] \<and> teams \<noteq> [] \<longrightarrow>
         generate_insights duke_players all_players teams hist = Inl IndexError \<or>
         generate_insights duke_players all_players teams hist = Inl KeyError) \<and>
      (\<exists>e. create_analysis auction hist = Inl e)) \<and>
   (aggregateTierInflation hist \<noteq> [] \<and> 4 \<le> length (aggregatePriceRangeInflation hist) \<longrightarrow>
      generate_insights duke_players all_players teams hist \<noteq> Inl IndexError \<and>
      (avgInflationRate (aggregateTierInflation hist ! 0) \<noteq> None \<and>
       avgInflationRate (aggregatePriceRangeInflation hist ! 3) \<noteq> None \<and>
       avgInflationRate (aggregatePriceRangeInflation hist ! 0) \<noteq> None \<and>
       duke_players \<noteq> [] \<and> all_players \<noteq> [] \<and> teams \<noteq> [] \<longrightarrow>
         (\<exists>found. generate_insights duke_players all_players teams hist = Inr found)))"
proof -
  have fails: "\<exists>e. generate_insights d a t hist = Inl e \<and>
                 (d \<noteq> [] \<and> a \<noteq> [] \<and> t \<noteq> [] \<longrightarrow> e \<in> {IndexError, KeyError})"
    if short: "aggregateTierInflation hist = [] \<or> length (aggregatePriceRangeInflation hist) < 4"
    for d a t
  proof (cases "d \<noteq> [] \<and> a \<noteq> [] \<and> t \<noteq> []")
    case True
    then obtain f where "generate_insights d a t hist =
           bindE (inflation_at (aggregateTierInflation hist) 0) (\<lambda>t1.
           bindE (inflation_at (aggregatePriceRangeInflation hist) 3) (\<lambda>r3.
           bindE (inflation_at (aggregatePriceRangeInflation hist) 0) (\<lambda>r0. Inr (f t1 r3 r0))))"
      using generate_insights_lookups [of d a t hist] by blast
    with lookups_short [OF short, of f] show ?thesis by auto
  next
    case False
    then have "generate_insights d a t hist = Inl ZeroDivisionError"
      by (intro generate_insights_zero_division) blast
    with False show ?thesis by blast
  qed
  have present: "generate_insights duke_players all_players teams hist \<noteq> Inl IndexError"
    if ok: "aggregateTierInflation hist \<noteq> []" "4 \<le> length (aggregatePriceRangeInflation hist)"
  proof (cases "duke_players \<noteq> [] \<and> all_players \<noteq> [] \<and> teams \<noteq> []")
    case True
    then obtain f where "generate_insights duke_players all_players teams hist =
           bindE (inflation_at (aggregateTierInflation hist) 0) (\<lambda>t1.
           bindE (inflation_at (aggregatePriceRangeInflation hist) 3) (\<lambda>r3.
           bindE (inflation_at (aggregatePriceRangeInflation hist) 0) (\<lambda>r0. Inr (f t1 r3 r0))))"
      using generate_insights_lookups [of duke_players all_players teams hist] by blast
    with lookups_present [OF ok, of f] show ?thesis by simp
  next
    case False
    then have "generate_insights duke_players all_players teams hist = Inl ZeroDivisionError"
      by (intro generate_insights_zero_division) blast
    then show ?thesis by simp
  qed
  have returns: "\<exists>found. generate_insights duke_players all_players teams hist = Inr found"
    if ok: "aggregateTierInflation hist \<noteq> []" "4 \<le> length (aggregatePriceRangeInflation hist)"
      and keys: "avgInflationRate (aggregateTierInflation hist ! 0) \<noteq> None"
        "avgInflationRate (aggregatePriceRangeInflation hist ! 3) \<noteq> None"
        "avgInflationRate (aggregatePriceRangeInflation hist ! 0) \<noteq> None"
      and ne: "duke_players \<noteq> []" "all_players \<noteq> []" "teams \<noteq> []"
  proof -
    obtain f where "generate_insights duke_players all_players teams hist =
           bindE (inflation_at (aggregateTierInflation hist) 0) (\<lambda>t1.
           bindE (inflation_at (aggregatePriceRangeInflation hist) 3) (\<lambda>r3.
           bindE (inflation_at (aggregatePriceRangeInflation hist) 0) (\<lambda>r0. Inr (f t1 r3 r0))))"
      using generate_insights_lookups [OF ne, of hist] by blast
    moreover from keys obtain a b c where
      "avgInflationRate (aggregateTierInflation hist ! 0) = Some a"
      "avgInflationRate (aggregatePriceRangeInflation hist ! 3) = Some b"
      "avgInflationRate (aggregatePriceRangeInflation hist ! 0) = Some c"
      by auto
    ultimately show ?thesis
      using lookups_ok [OF ok, of a b c f] by simp
  qed
  have report: "\<exists>e. create_analysis auction hist = Inl e"
    if short: "aggregateTierInflation hist = [] \<or> length (aggregatePriceRangeInflation hist) < 4"
  proof -
    obtain a d where ex: "extract_players auction = (a, d)" by (cases "extract_players auction")
    from fails [OF short, of d a "analyze_teams a"]
    obtain e where "generate_insights d a (analyze_teams a) hist = Inl e" by blast
    from create_analysis_needs_insights [OF ex this] show ?thesis .
  qed
  from fails present returns report show ?thesis by blast
qed


lemma bindE_eq_Inr: "bindE r f = Inr y \<longleftrightarrow> (\<exists>a. r = Inr a \<and> f a = Inr y)"
  by (cases r) simp_all

lemma compare_no_duke: "compare_duke_to_league [] all_players = Inr []"
  by (simp add: compare_duke_to_league_def analyze_positions_eq duke_position_breakdown_def
      group_by_position_def)

lemma create_analysis_no_duke:
  assumes "snd (extract_players auction) = []"
  shows "create_analysis auction hist = Inl ZeroDivisionError"
proof -
  have ex: "extract_players auction = (fst (extract_players auction), [])"
    using assms by (simp add: prod_eq_iff)
  define a where "a = fst (extract_players auction)"
  note ex = ex [folded a_def]
  have "generate_insights [] a (analyze_teams a) hist = Inl ZeroDivisionError"
    by (rule generate_insights_zero_division) simp
  then show ?thesis
    by (simp add: create_analysis_def ex analyze_positions_eq analyze_price_tiers_eq
        compare_no_duke duke_position_breakdown_def group_by_position_def)
qed

text \<open>
  C1. The divisions of the insight generator are not guarded: with an empty target-team
  set, an empty league or an empty team map it raises \<open>ZeroDivisionError\<close>, and the report
  assembly raises it whenever the extractor finds no player of the target team, instead
  of emitting zeros.
\<close>

theorem empty_sets_divide_by_zero:
  "(duke_players = [] \<or> all_players = [] \<or> teams = [] \<longrightarrow>
      generate_insights duke_players all_players teams hist = Inl ZeroDivisionError) \<and>
   (snd (extract_players auction) = [] \<longrightarrow>
      create_analysis auction hist = Inl ZeroDivisionError)"
  using create_analysis_no_duke [of auction hist]
    generate_insights_zero_division [of duke_players all_players teams hist]
  by blast

lemma sorted_roster_descending:
  assumes "sorted_roster duke_players = Inr r"
  shows "sorted_wrt (\<lambda>x y. re_winningBid y \<le> re_winningBid x) r \<and> length r = length duke_players"
proof -
  from assms obtain entries where
    e: "mapE roster_entry_of duke_players = Inr entries" and
    r: "r = sort_key (\<lambda>x. - re_winningBid x) entries"
    by (auto simp: sorted_roster_def bindE_eq_Inr)
  have "sorted (map (\<lambda>x. - re_winningBid x) r)"
    unfolding r by (rule sorted_sort_key)
  then have s: "sorted_wrt (\<lambda>x y. re_winningBid y \<le> re_winningBid x) r"
    by (simp add: sorted_wrt_map)
  have "length ys = length xs" if "mapE f xs = Inr ys" for f :: "player \<Rightarrow> roster_entry result" and xs ys
    using that by (induction xs arbitrary: ys) (auto simp: bindE_eq_Inr)
  from this [OF e] s show ?thesis by (simp add: r)
qed

text \<open>
  C10. In an assembled report the roster list of the target team is the stable sort of
  the team's entries by descending \<open>winningBid\<close>: it has one entry per player of the team
  and every entry's bid is at least the bid of the entry that follows it.
\<close>

theorem roster_sorted_descending:
  assumes "create_analysis auction hist = Inr rep"
  shows "sorted_roster (snd (extract_players auction)) = Inr (roster_players (dukeRoster rep)) \<and>
         length (roster_players (dukeRoster rep)) = length (snd (extract_players auction)) \<and>
         (\<forall>i. Suc i < length (roster_players (dukeRoster rep)) \<longrightarrow>
            re_winningBid (roster_players (dukeRoster rep) ! Suc i)
              \<le> re_winningBid (roster_players (dukeRoster rep) ! i))"
proof -
  obtain a d where ex: "extract_players auction = (a, d)" by (cases "extract_players auction")
  from assms have sr: "sorted_roster d = Inr (roster_players (dukeRoster rep))"
    by (auto simp: create_analysis_def ex Let_def bindE_eq_Inr)
  from sorted_roster_descending [OF sr]
  have s: "sorted_wrt (\<lambda>x y. re_winningBid y \<le> re_winningBid x) (roster_players (dukeRoster rep))"
    and l: "length (roster_players (dukeRoster rep)) = length d" by simp_all
  have "re_winningBid (roster_players (dukeRoster rep) ! Suc i)
              \<le> re_winningBid (roster_players (dukeRoster rep) ! i)"
    if "Suc i < length (roster_players (dukeRoster rep))" for i
    using sorted_wrt_nth_less [OF s, of i "Suc i"] that by simp
  with sr l show ?thesis by (simp add: ex)
qed


lemma length_small_league: "length small_league = 3"
  by (simp add: small_league_def)

lemma insights_small:
  "\<exists>found. generate_insights [ann, cy] small_league (analyze_teams small_league) small_hist = Inr found"
  by (simp add: teams_small generate_insights_def Let_def py_div_def inflation_at_def get_item_def
      get_key_def small_hist_def entry_def length_small_league)

lemma breakdown_small: "\<exists>bd. duke_position_breakdown [ann, cy] = Inr bd"
  by (simp add: duke_position_breakdown_def
      group_by_position_def group_step_def dd_modify_def get_positions_def breakdown_row_def
      mean_def get_key_def ann_def cy_def)

lemma create_small:
  "\<exists>rep. create_analysis small_auction small_hist = Inr rep \<and>
      roster_players (dukeRoster rep) =
        [\<lparr>re_name = ''Cy'', re_positions = [''OF'', ''1B''], re_winningBid = 20, re_mlbTeam = ''FA''\<rparr>,
         \<lparr>re_name = ''Ann'', re_positions = [''OF''], re_winningBid = 10, re_mlbTeam = ''FA''\<rparr>]"
proof -
  obtain found where i: "generate_insights [ann, cy] small_league (analyze_teams small_league) small_hist = Inr found"
    using insights_small by blast
  obtain bd where b: "duke_position_breakdown [ann, cy] = Inr bd"
    using breakdown_small by blast
  have r: "sorted_roster [ann, cy] =
     Inr [\<lparr>re_name = ''Cy'', re_positions = [''OF'', ''1B''], re_winningBid = 20, re_mlbTeam = ''FA''\<rparr>,
         \<lparr>re_name = ''Ann'', re_positions = [''OF''], re_winningBid = 10, re_mlbTeam = ''FA''\<rparr>]"
    by (simp add: sorted_roster_def roster_entry_of_def get_key_def ann_def cy_def)
  have o: "\<exists>x. league_overview_of small_league (analyze_teams small_league) 35 = Inr x"
    by (simp add: league_overview_of_def teams_small py_div_def length_small_league)
  have s: "\<exists>x. roster_summary_of [ann, cy] 30 = Inr x"
    by (simp add: roster_summary_of_def py_div_def)
  have c: "\<exists>x. overall_comparison_of [ann, cy] small_league 30 35 = Inr x"
    by (simp add: overall_comparison_of_def py_div_def length_small_league)
  have t: "\<exists>x. mapE team_comparison_of (analyze_teams small_league) = Inr x"
    by (simp add: teams_small team_comparison_of_def py_div_def)
  have k: "\<exists>x. key_findings_of [ann, cy] small_league (analyze_teams small_league) small_hist 30 35 = Inr x"
    by (simp add: key_findings_of_def teams_small py_div_def inflation_at_def get_item_def
      get_key_def small_hist_def entry_def length_small_league)
  have m: "\<exists>x. recommendations_of [ann, cy] small_league (analyze_teams small_league) 30 = Inr x"
    by (simp add: recommendations_of_def teams_small py_div_def length_small_league)
  have sums: "winningBid ann + winningBid cy = 30" "sum_list (map winningBid small_league) = 35"
    by (simp_all add: small_league_def ann_def bob_def cy_def)
  from o s c t k m obtain x1 x2 x3 x4 x5 x6 where
    "league_overview_of small_league (analyze_teams small_league) 35 = Inr x1"
    "roster_summary_of [ann, cy] 30 = Inr x2"
    "overall_comparison_of [ann, cy] small_league 30 35 = Inr x3"
    "mapE team_comparison_of (analyze_teams small_league) = Inr x4"
    "key_findings_of [ann, cy] small_league (analyze_teams small_league) small_hist 30 35 = Inr x5"
    "recommendations_of [ann, cy] small_league (analyze_teams small_league) 30 = Inr x6"
    by blast
  then show ?thesis
    by (simp add: create_analysis_def extract_small analyze_positions_league
        analyze_price_tiers_eq compare_small_league i b r sums Let_def)
qed

lemma insights_short_hist:
  "generate_insights [ann, cy] small_league (analyze_teams small_league) short_hist = Inl IndexError"
  by (simp add: teams_small generate_insights_def Let_def py_div_def inflation_at_def get_item_def
      get_key_def short_hist_def small_hist_def entry_def length_small_league)

lemma historical_lookups_small:
  "length (aggregatePriceRangeInflation short_hist) < 4 \<and>
   generate_insights [ann, cy] small_league (analyze_teams small_league) short_hist = Inl IndexError \<and>
   (\<exists>e. create_analysis small_auction short_hist = Inl e) \<and>
   aggregateTierInflation small_hist \<noteq> [] \<and>
   4 \<le> length (aggregatePriceRangeInflation small_hist) \<and>
   (\<exists>found. generate_insights [ann, cy] small_league (analyze_teams small_league) small_hist
              = Inr found)"
  using historical_lookups_behaviour
          [of short_hist "[ann, cy]" small_league "analyze_teams small_league" small_auction]
        historical_lookups_behaviour
          [of small_hist "[ann, cy]" small_league "analyze_teams small_league" small_auction]
        insights_short_hist insights_small
  by (simp add: short_hist_def small_hist_def)

theorem empty_sets_divide_by_zero_witness:
  "extract_players empty_auction = ([], []) \<and>
   create_analysis empty_auction small_hist = Inl ZeroDivisionError \<and>
   generate_insights [] [] (analyze_teams []) small_hist = Inl ZeroDivisionError \<and>
   extract_players no_duke_auction = ([bob], []) \<and>
   create_analysis no_duke_auction small_hist = Inl ZeroDivisionError \<and>
   generate_insights [] [bob] (analyze_teams [bob]) small_hist = Inl ZeroDivisionError"
proof -
  have e: "extract_players empty_auction = ([], [])"
    by (simp add: extract_players_def empty_auction_def List.map_filter_def)
  have n: "extract_players no_duke_auction = ([bob], [])"
    by (simp add: extract_players_def no_duke_auction_def raw_of_def drafted_def
        List.map_filter_def bob_def)
  from e n
    empty_sets_divide_by_zero [of "[]" "[]" "analyze_teams []" small_hist empty_auction]
    empty_sets_divide_by_zero [of "[]" "[bob]" "analyze_teams [bob]" small_hist no_duke_auction]
  show ?thesis by simp
qed

theorem roster_sorted_descending_witness:
  "\<exists>rep. create_analysis small_auction small_hist = Inr rep \<and>
      map re_winningBid (roster_players (dukeRoster rep)) = [20, 10] \<and>
      re_winningBid (roster_players (dukeRoster rep) ! Suc 0)
        \<le> re_winningBid (roster_players (dukeRoster rep) ! 0)"
proof -
  from create_small obtain rep where
    rep: "create_analysis small_auction small_hist = Inr rep" and
    roster: "roster_players (dukeRoster rep) =
      [\<lparr>re_name = ''Cy'', re_positions = [''OF'', ''1B''], re_winningBid = 20, re_mlbTeam = ''FA''\<rparr>,
       \<lparr>re_name = ''Ann'', re_positions = [''OF''], re_winningBid = 10, re_mlbTeam = ''FA''\<rparr>]"
    by blast
  from roster_sorted_descending [OF rep] roster
  have "re_winningBid (roster_players (dukeRoster rep) ! Suc 0)
        \<le> re_winningBid (roster_players (dukeRoster rep) ! 0)"
    by simp
  with rep roster show ?thesis by simp
qed

lemma extract_empty_auction: "extract_players empty_auction = ([], [])"
  by (simp add: extract_players_def empty_auction_def List.map_filter_def)

lemma extract_no_duke_auction: "extract_players no_duke_auction = ([bob], [])"
  by (simp add: extract_players_def no_duke_auction_def raw_of_def drafted_def
      List.map_filter_def bob_def)

text \<open>
  C8. The lookups of the historical reference are not reached when a player set is
  empty, because the unguarded divisions of C1 come first: with a reference of three
  price-range buckets and a snapshot without a player of the target team, or without any
  drafted player, insight generation and the report assembly fail with
  \<open>ZeroDivisionError\<close> and not with an index or key error.
\<close>

theorem historical_lookups_preempted:
  "length (aggregatePriceRangeInflation short_hist) < 4 \<and>
   extract_players no_duke_auction = ([bob], []) \<and>
   generate_insights [] [bob] (analyze_teams [bob]) short_hist = Inl ZeroDivisionError \<and>
   create_analysis no_duke_auction short_hist = Inl ZeroDivisionError \<and>
   extract_players empty_auction = ([], []) \<and>
   generate_insights [] [] (analyze_teams []) short_hist = Inl ZeroDivisionError \<and>
   create_analysis empty_auction short_hist = Inl ZeroDivisionError"
proof -
  have "length (aggregatePriceRangeInflation short_hist) < 4"
    by (simp add: short_hist_def)
  moreover have "generate_insights [] [bob] (analyze_teams [bob]) short_hist = Inl ZeroDivisionError"
    "generate_insights [] [] (analyze_teams []) short_hist = Inl ZeroDivisionError"
    by (rule generate_insights_zero_division, simp)+
  moreover have "create_analysis no_duke_auction short_hist = Inl ZeroDivisionError"
    by (rule create_analysis_no_duke) (simp add: extract_no_duke_auction)
  moreover have "create_analysis empty_auction short_hist = Inl ZeroDivisionError"
    by (rule create_analysis_no_duke) (simp add: extract_empty_auction)
  ultimately show ?thesis
    by (simp add: extract_no_duke_auction extract_empty_auction)
qed

end
